theory Spec2Isabelle
  imports Complex_Main
begin

section \<open>Data model\<close>

text \<open>
  The routing gateway is written in Go. Its values are embedded as follows.
  \<^item> \<open>time.Duration\<close> is a count of nanoseconds, an \<open>int\<close>.
  \<^item> \<open>time.Time\<close> is an instant, an \<open>int\<close> of nanoseconds counted from the zero
    instant \<open>time.Time{}\<close>, so \<open>IsZero\<close> is the test against \<open>0\<close>.  Every reading of
    the clock (\<open>time.Now()\<close>) is an explicit argument of the function that reads it.
  \<^item> \<open>float64\<close> is idealised as \<open>real\<close> in the scoring and in the health metrics:
    exact arithmetic, no rounding, no NaN and no infinity.  The one place there where
    the source relies on an infinity (a division by a zero score that is clamped
    afterwards) is written out as a branch.  \<open>SetWeights\<close>, whose result for arbitrary
    arguments depends on rounding and overflow, is modelled on the values of IEEE 754
    binary64 instead (section \<open>Weights in float64\<close>).
  \<^item> \<open>int64\<close> counters are \<open>int\<close>; they count health checks and stay far from
    \<open>2^63\<close>.
  \<^item> A Go \<open>error\<close> is the text it carries; \<open>nil\<close> is \<open>None\<close>, and a result
    \<open>(v, err)\<close> is a sum with \<open>Inl\<close> for the error.
  \<^item> \<open>map[string]providers.Provider\<close> is the list of its entries, keys distinct, in the
    order in which a \<open>range\<close> loop visits them (Go leaves that order open, so every
    statement below is made for every order); \<open>availableProviders[k]\<close> is \<open>map_of\<close>.
  \<^item> \<open>BasePolicy\<close> holds a name, a description and a bookkeeping map that
    \<open>UpdateMetrics\<close> writes after a decision; no decision reads them, and they are
    left out.  The \<open>context.Context\<close> argument of \<open>DecideRoute\<close> is not used by the
    source and is left out as well.
\<close>

type_synonym Duration = int
type_synonym Time = int
type_synonym error = string

definition Millisecond :: Duration where
  "Millisecond = 1000000"

definition Second :: Duration where
  "Second = 1000000000"

text \<open>\<open>Duration.Milliseconds\<close>: Go's integer division truncates towards zero.\<close>

definition Milliseconds :: "Duration \<Rightarrow> int" where
  "Milliseconds d = (if d < 0 then - ((- d) div 1000000) else d div 1000000)"

text \<open>\<open>models.ChatRequest\<close>, with the fields the routing core and the estimators read.\<close>

record Message =
  Role :: string
  Content :: string

record ChatRequest =
  Model :: string
  Messages :: "Message list"
  MaxTokens :: int

record HealthStatus =
  Healthy :: bool
  Latency :: Duration
  LastCheck :: Time
  Error :: string

text \<open>
  A provider handle: the health record of \<open>BaseProvider\<close>, and the answers of the
  interface methods that the concrete providers implement.
\<close>

record Provider =
  health :: HealthStatus
  GetModels :: "error + string list"
  GetCostEstimate :: "ChatRequest \<Rightarrow> error + real"
  GetLatencyEstimate :: "ChatRequest \<Rightarrow> error + Duration"

definition IsHealthy :: "Provider \<Rightarrow> bool" where
  "IsHealthy p = Healthy (health p)"

definition SetHealth :: "Provider \<Rightarrow> bool \<Rightarrow> Duration \<Rightarrow> string \<Rightarrow> Time \<Rightarrow> Provider" where
  "SetHealth p healthy latency err now =
     p\<lparr>health := \<lparr>Healthy = healthy, Latency = latency, LastCheck = now, Error = err\<rparr>\<rparr>"

type_synonym providers = "(string \<times> Provider) list"

text \<open>
  Every call of a provider method made during a decision is recorded, with the key of
  the provider it is made on, in the order of the calls.
\<close>

datatype call =
    CallIsHealthy string
  | CallGetModels string
  | CallGetCostEstimate string
  | CallGetLatencyEstimate string

text \<open>
  \<open>RoutingDecision.Reason\<close> is a formatted text; it is kept as the format and its
  arguments.
\<close>

datatype reason =
    NoReason
  | PrimaryHealthy
  | UsingBackup string
  | CostLatency real Duration

record RoutingDecision =
  ProviderName :: string
  DecisionModel :: string
  Reason :: reason
  EstimatedCost :: real
  EstimatedLatency :: Duration
  Confidence :: real
  Fallback :: bool

section \<open>Shared policy code\<close>

definition ValidateRequest :: "ChatRequest \<Rightarrow> error option" where
  "ValidateRequest req =
     (if Model req = [] then Some ''model is required''
      else if length (Messages req) = 0 then Some ''at least one message is required''
      else None)"

definition providerSupportsModel :: "Provider \<Rightarrow> string \<Rightarrow> bool" where
  "providerSupportsModel provider model =
     (case GetModels provider of
        Inl err \<Rightarrow> False
      | Inr models \<Rightarrow> model \<in> set models)"

text \<open>The helper asks every provider of the map whether it is healthy.\<close>

definition getHealthyProviders :: "providers \<Rightarrow> providers \<times> call list" where
  "getHealthyProviders availableProviders =
     (filter (\<lambda>(name, provider). IsHealthy provider) availableProviders,
      map (\<lambda>(name, provider). CallIsHealthy name) availableProviders)"

section \<open>Cost-based policy\<close>

record CostBasedPolicy =
  maxLatencyThreshold :: Duration
  costWeight :: real
  latencyWeight :: real
  healthWeight :: real

definition NewCostBasedPolicy :: CostBasedPolicy where
  "NewCostBasedPolicy =
     \<lparr>maxLatencyThreshold = 5 * Second,
      costWeight = 6 / 10,
      latencyWeight = 3 / 10,
      healthWeight = 1 / 10\<rparr>"

record providerScore =
  name :: string
  score :: real
  cost :: real
  latency :: Duration
  reason :: reason

text \<open>The composite score of the loop body; lower is better.\<close>

definition totalScore :: "CostBasedPolicy \<Rightarrow> real \<Rightarrow> Duration \<Rightarrow> real" where
  "totalScore p c l =
     (let costScore = c * costWeight p;
          latencyScore = real_of_int (Milliseconds l) / 1000 * latencyWeight p;
          healthScore = 0
      in costScore + latencyScore + healthScore)"

text \<open>
  One pass of the scoring loop over a healthy provider: the score it appends, if any,
  and the provider calls it makes.
\<close>

definition scoreProvider ::
  "CostBasedPolicy \<Rightarrow> ChatRequest \<Rightarrow> string \<times> Provider \<Rightarrow> providerScore option \<times> call list" where
  "scoreProvider p req entry =
     (case entry of (nm, provider) \<Rightarrow>
        if \<not> providerSupportsModel provider (Model req) then (None, [CallGetModels nm])
        else
          (case GetCostEstimate provider req of
             Inl err \<Rightarrow> (None, [CallGetModels nm, CallGetCostEstimate nm])
           | Inr c \<Rightarrow>
               (let l = (case GetLatencyEstimate provider req of
                           Inl err \<Rightarrow> maxLatencyThreshold p
                         | Inr l \<Rightarrow> l);
                    calls = [CallGetModels nm, CallGetCostEstimate nm, CallGetLatencyEstimate nm]
                in if l > maxLatencyThreshold p then (None, calls)
                   else (Some \<lparr>name = nm, score = totalScore p c l, cost = c, latency = l,
                                reason = CostLatency c l\<rparr>, calls))))"

fun scoreProviders ::
  "CostBasedPolicy \<Rightarrow> ChatRequest \<Rightarrow> providers \<Rightarrow> providerScore list \<times> call list" where
  "scoreProviders p req [] = ([], [])"
| "scoreProviders p req (entry # rest) =
     (case scoreProvider p req entry of (s, calls) \<Rightarrow>
        (case scoreProviders p req rest of (scores, calls') \<Rightarrow>
           ((case s of None \<Rightarrow> scores | Some x \<Rightarrow> x # scores), calls @ calls')))"

text \<open>
  The confidence computed from the sorted scores.  In the source the quotient
  \<open>scoreDiff / best.score\<close> with a positive \<open>scoreDiff\<close> and a zero \<open>best.score\<close> is
  \<open>+Inf\<close>, which the clamp turns into \<open>1.0\<close>; that is the branch \<open>score best = 0\<close>.
\<close>

definition confidenceOf :: "providerScore \<Rightarrow> providerScore list \<Rightarrow> real" where
  "confidenceOf best others =
     (case others of
        [] \<Rightarrow> 1
      | second # rest \<Rightarrow>
          (let scoreDiff = score second - score best
           in if scoreDiff > 0
              then (if score best = 0 then 1
                    else (let confidence = 8 / 10 + (2 / 10 * (scoreDiff / score best))
                          in if confidence > 1 then 1 else confidence))
              else 1))"

text \<open>
  \<open>CostBasedPolicy.DecideRoute\<close>.  The map of healthy providers is visited in the order
  of the list.  \<open>sort.Slice\<close> with the comparison \<open>score < score\<close> is the insertion sort
  \<open>sort_key score\<close>, which is what Go runs on a slice of at most twelve elements; on a
  longer slice Go may order candidates of equal score differently, and the properties
  proved below use only that the result is an ascending rearrangement of \<open>scores\<close>.
  The sorted slice is empty exactly when \<open>scores\<close> is, which is the test of the source
  before it sorts.
\<close>

definition CostBased_DecideRoute ::
  "CostBasedPolicy \<Rightarrow> ChatRequest \<Rightarrow> providers \<Rightarrow> (error + RoutingDecision) \<times> call list" where
  "CostBased_DecideRoute p req availableProviders =
     (case ValidateRequest req of
        Some err \<Rightarrow> (Inl (''invalid request: '' @ err), [])
      | None \<Rightarrow>
          (case getHealthyProviders availableProviders of (healthyProviders, calls) \<Rightarrow>
             if length healthyProviders = 0
             then (Inl ''no healthy providers available'', calls)
             else
               (case scoreProviders p req healthyProviders of (scores, calls') \<Rightarrow>
                  (case sort_key score scores of
                     [] \<Rightarrow> (Inl (''no suitable providers found for model '' @ Model req),
                            calls @ calls')
                   | best # others \<Rightarrow>
                       (Inr \<lparr>ProviderName = name best,
                             DecisionModel = Model req,
                             Reason = reason best,
                             EstimatedCost = cost best,
                             EstimatedLatency = latency best,
                             Confidence = confidenceOf best others,
                             Fallback = False\<rparr>,
                        calls @ calls')))))"

section \<open>Weights in float64\<close>

text \<open>
  A \<open>float64\<close> is a finite value, an infinity or a NaN.  A finite value is kept as the
  real number it denotes; the sign of a zero and the payload of a NaN are not kept
  (no comparison and no arithmetic result of \<open>SetWeights\<close> depends on them).
\<close>

datatype float64 = Finite real | PosInf | NegInf | NaN

text \<open>Rounding to the nearest integer, a tie going to the even one.\<close>

definition roundEven :: "real \<Rightarrow> int" where
  "roundEven y =
     (let n = \<lfloor>y\<rfloor>; r = y - of_int n
      in if r < 1 / 2 then n
         else if 1 / 2 < r then n + 1
         else if even n then n else n + 1)"

text \<open>
  The binade of a non-zero real, not below the smallest normal exponent, and the
  distance between neighbouring doubles there (52 fraction bits).
\<close>

definition exponent :: "real \<Rightarrow> int" where
  "exponent x = max \<lfloor>log 2 \<bar>x\<bar>\<rfloor> (- 1022)"

definition ulp :: "real \<Rightarrow> real" where
  "ulp x = 2 powr (of_int (exponent x) - 52)"

text \<open>
  Round to nearest, ties to even, with an unbounded exponent range above; below
  \<open>2^-1022\<close> the spacing stays \<open>2^-1074\<close> (gradual underflow).
\<close>

definition rnd :: "real \<Rightarrow> real" where
  "rnd x = (if x = 0 then 0 else of_int (roundEven (x / ulp x)) * ulp x)"

text \<open>
  The \<open>float64\<close> result of an operation whose exact result is \<open>x\<close>: the rounded value,
  or an infinity when the rounded value leaves the range (at \<open>2^1024\<close>).
\<close>

definition fromReal :: "real \<Rightarrow> float64" where
  "fromReal x =
     (let r = rnd x
      in if 2 ^ 1024 \<le> r then PosInf
         else if r \<le> - (2 ^ 1024) then NegInf
         else Finite r)"

text \<open>
  The operators \<open>+\<close>, \<open>/\<close> and \<open><=\<close> of Go on \<open>float64\<close>.  A division by zero takes the
  zero as positive; \<open>SetWeights\<close> never divides by zero, since it refuses a zero total.
\<close>

fun fadd :: "float64 \<Rightarrow> float64 \<Rightarrow> float64" where
  "fadd NaN b = NaN"
| "fadd a NaN = NaN"
| "fadd PosInf NegInf = NaN"
| "fadd NegInf PosInf = NaN"
| "fadd PosInf b = PosInf"
| "fadd a PosInf = PosInf"
| "fadd NegInf b = NegInf"
| "fadd a NegInf = NegInf"
| "fadd (Finite x) (Finite y) = fromReal (x + y)"

fun fdiv :: "float64 \<Rightarrow> float64 \<Rightarrow> float64" where
  "fdiv NaN b = NaN"
| "fdiv a NaN = NaN"
| "fdiv PosInf PosInf = NaN"
| "fdiv PosInf NegInf = NaN"
| "fdiv NegInf PosInf = NaN"
| "fdiv NegInf NegInf = NaN"
| "fdiv PosInf (Finite y) = (if y < 0 then NegInf else PosInf)"
| "fdiv NegInf (Finite y) = (if y < 0 then PosInf else NegInf)"
| "fdiv (Finite x) PosInf = Finite 0"
| "fdiv (Finite x) NegInf = Finite 0"
| "fdiv (Finite x) (Finite y) =
     (if y = 0 then (if x = 0 then NaN else if 0 < x then PosInf else NegInf)
      else fromReal (x / y))"

fun fle :: "float64 \<Rightarrow> float64 \<Rightarrow> bool" where
  "fle NaN b = False"
| "fle a NaN = False"
| "fle NegInf b = True"
| "fle a PosInf = True"
| "fle PosInf b = False"
| "fle a NegInf = False"
| "fle (Finite x) (Finite y) = (x \<le> y)"

text \<open>
  \<open>CostBasedPolicy.SetWeights\<close>.  The method reads no field of the policy and writes
  its three weight fields; its state is the triple of them, in the order in which
  \<open>GetWeights\<close> returns it.  The result is that triple after the call and the error
  (\<open>None\<close> is \<open>nil\<close>).  Go evaluates \<open>cost + latency + health\<close> from the left.
\<close>

definition SetWeights ::
  "float64 \<times> float64 \<times> float64 \<Rightarrow> float64 \<Rightarrow> float64 \<Rightarrow> float64 \<Rightarrow>
     (float64 \<times> float64 \<times> float64) \<times> error option" where
  "SetWeights weights c l h =
     (let total = fadd (fadd c l) h
      in if fle total (Finite 0) then (weights, Some ''weights must sum to a positive number'')
         else ((fdiv c total, fdiv l total, fdiv h total), None))"

section \<open>Failover policy\<close>

record FailoverPolicy =
  primaryProvider :: string
  backupProviders :: "string list"
  failoverDelay :: Duration
  healthCheckInterval :: Duration
  lastFailover :: Time

definition NewFailoverPolicy :: "string \<Rightarrow> string list \<Rightarrow> FailoverPolicy" where
  "NewFailoverPolicy primary backups =
     \<lparr>primaryProvider = primary,
      backupProviders = backups,
      failoverDelay = 30 * Second,
      healthCheckInterval = 10 * Second,
      lastFailover = 0\<rparr>"

definition IsZero :: "Time \<Rightarrow> bool" where
  "IsZero t = (t = 0)"

definition maxDuration :: Duration where
  "maxDuration = 2 ^ 63 - 1"

definition minDuration :: Duration where
  "minDuration = - (2 ^ 63)"

text \<open>
  \<open>time.Since(t)\<close> is \<open>time.Now().Sub(t)\<close>; \<open>Sub\<close> saturates at the ends of the
  \<open>int64\<close> range of a \<open>Duration\<close>.
\<close>

definition Sub :: "Time \<Rightarrow> Time \<Rightarrow> Duration" where
  "Sub t u =
     (let d = t - u
      in if d > maxDuration then maxDuration
         else if d < minDuration then minDuration
         else d)"

definition Since :: "Time \<Rightarrow> Time \<Rightarrow> Duration" where
  "Since now t = Sub now t"

definition shouldUsePrimary :: "FailoverPolicy \<Rightarrow> Time \<Rightarrow> bool" where
  "shouldUsePrimary p now =
     (if IsZero (lastFailover p) then True
      else Since now (lastFailover p) > failoverDelay p)"

definition MarkFailover :: "FailoverPolicy \<Rightarrow> string \<Rightarrow> Time \<Rightarrow> FailoverPolicy" where
  "MarkFailover p providerName now =
     (if providerName = primaryProvider p then p\<lparr>lastFailover := now\<rparr> else p)"

definition SetFailoverDelay :: "FailoverPolicy \<Rightarrow> Duration \<Rightarrow> FailoverPolicy" where
  "SetFailoverDelay p delay = p\<lparr>failoverDelay := delay\<rparr>"

definition IsInFailoverMode :: "FailoverPolicy \<Rightarrow> Time \<Rightarrow> bool" where
  "IsInFailoverMode p now = (\<not> shouldUsePrimary p now)"

text \<open>
  The first part of \<open>FailoverPolicy.DecideRoute\<close>: whether the primary is taken, and
  the provider calls made to find out.
\<close>

definition tryPrimary ::
  "FailoverPolicy \<Rightarrow> ChatRequest \<Rightarrow> providers \<Rightarrow> Time \<Rightarrow> bool \<times> call list" where
  "tryPrimary p req availableProviders now =
     (if shouldUsePrimary p now then
        (case map_of availableProviders (primaryProvider p) of
           None \<Rightarrow> (False, [])
         | Some provider \<Rightarrow>
             if IsHealthy provider
             then (providerSupportsModel provider (Model req),
                   [CallIsHealthy (primaryProvider p), CallGetModels (primaryProvider p)])
             else (False, [CallIsHealthy (primaryProvider p)]))
      else (False, []))"

text \<open>The loop over the backup providers, in their configured order.\<close>

fun tryBackups ::
  "providers \<Rightarrow> ChatRequest \<Rightarrow> string list \<Rightarrow> RoutingDecision option \<times> call list" where
  "tryBackups availableProviders req [] = (None, [])"
| "tryBackups availableProviders req (backupName # rest) =
     (case map_of availableProviders backupName of
        None \<Rightarrow> tryBackups availableProviders req rest
      | Some provider \<Rightarrow>
          if IsHealthy provider then
            if providerSupportsModel provider (Model req)
            then (Some \<lparr>ProviderName = backupName,
                         DecisionModel = Model req,
                         Reason = UsingBackup backupName,
                         EstimatedCost = 0,
                         EstimatedLatency = 0,
                         Confidence = 8 / 10,
                         Fallback = True\<rparr>,
                  [CallIsHealthy backupName, CallGetModels backupName])
            else (case tryBackups availableProviders req rest of (d, calls) \<Rightarrow>
                    (d, CallIsHealthy backupName # CallGetModels backupName # calls))
          else (case tryBackups availableProviders req rest of (d, calls) \<Rightarrow>
                  (d, CallIsHealthy backupName # calls)))"

definition Failover_DecideRoute ::
  "FailoverPolicy \<Rightarrow> ChatRequest \<Rightarrow> providers \<Rightarrow> Time \<Rightarrow>
     (error + RoutingDecision) \<times> call list" where
  "Failover_DecideRoute p req availableProviders now =
     (case ValidateRequest req of
        Some err \<Rightarrow> (Inl (''invalid request: '' @ err), [])
      | None \<Rightarrow>
          (case tryPrimary p req availableProviders now of
             (True, calls) \<Rightarrow>
               (Inr \<lparr>ProviderName = primaryProvider p,
                     DecisionModel = Model req,
                     Reason = PrimaryHealthy,
                     EstimatedCost = 0,
                     EstimatedLatency = 0,
                     Confidence = 1,
                     Fallback = False\<rparr>, calls)
           | (False, calls) \<Rightarrow>
               (case tryBackups availableProviders req (backupProviders p) of
                  (Some decision, calls') \<Rightarrow> (Inr decision, calls @ calls')
                | (None, calls') \<Rightarrow>
                    (Inl (''no available providers for model '' @ Model req),
                     calls @ calls'))))"

section \<open>Health checker\<close>

record ProviderMetrics =
  TotalChecks :: int
  SuccessfulChecks :: int
  FailedChecks :: int
  MetricsLastCheck :: Time
  LastLatency :: Duration
  AverageLatency :: Duration
  Uptime :: real

text \<open>The zero value \<open>&ProviderMetrics{}\<close>, with the given time of the last check.\<close>

definition newMetrics :: "Time \<Rightarrow> ProviderMetrics" where
  "newMetrics t =
     \<lparr>TotalChecks = 0, SuccessfulChecks = 0, FailedChecks = 0, MetricsLastCheck = t,
      LastLatency = 0, AverageLatency = 0, Uptime = 0\<rparr>"

text \<open>The conversion \<open>time.Duration(x)\<close> of a \<open>float64\<close> drops the fraction.\<close>

definition truncate :: "real \<Rightarrow> int" where
  "truncate x = (if x < 0 then \<lceil>x\<rceil> else \<lfloor>x\<rfloor>)"

text \<open>
  \<open>checkProvider\<close> on the metrics table of the checker.  The probe is the provider's
  \<open>GetModels\<close>; the measured time of the probe and the clock read while the table is
  locked are arguments (the two readings taken there, for the metrics and inside
  \<open>SetHealth\<close>, are one instant).  The result is the table and the provider after the
  check.  The table is locked for the whole update, so the checks of a cycle, started
  concurrently, update it one after the other.
\<close>

definition checkProvider ::
  "(string \<rightharpoonup> ProviderMetrics) \<Rightarrow> string \<Rightarrow> Provider \<Rightarrow> Duration \<Rightarrow> Time \<Rightarrow>
     (string \<rightharpoonup> ProviderMetrics) \<times> Provider" where
  "checkProvider table nm provider lat now =
     (let err = (case GetModels provider of Inl e \<Rightarrow> Some e | Inr models \<Rightarrow> None);
          m0 = (case table nm of None \<Rightarrow> newMetrics 0 | Some m \<Rightarrow> m);
          m1 = m0\<lparr>TotalChecks := TotalChecks m0 + 1,
                  MetricsLastCheck := now,
                  LastLatency := lat\<rparr>;
          m2 = (case err of
                  None \<Rightarrow> m1\<lparr>SuccessfulChecks := SuccessfulChecks m1 + 1\<rparr>
                | Some e \<Rightarrow> m1\<lparr>FailedChecks := FailedChecks m1 + 1\<rparr>);
          provider' = (case err of
                         None \<Rightarrow> SetHealth provider True lat [] now
                       | Some e \<Rightarrow> SetHealth provider False lat e now);
          m3 = (if TotalChecks m2 > 0
                then m2\<lparr>Uptime := real_of_int (SuccessfulChecks m2)
                                   / real_of_int (TotalChecks m2) * 100\<rparr>
                else m2);
          m4 = (if SuccessfulChecks m3 > 0
                then (if AverageLatency m3 = 0
                      then m3\<lparr>AverageLatency := lat\<rparr>
                      else (let alpha = 1 / 10
                            in m3\<lparr>AverageLatency :=
                                    truncate (real_of_int (AverageLatency m3) * (1 - alpha)
                                              + real_of_int lat * alpha)\<rparr>))
                else m3)
      in (table(nm \<mapsto> m4), provider'))"

text \<open>
  What happens to the metrics table of a checker: a provider is registered
  (\<open>AddProvider\<close>), removed (\<open>RemoveProvider\<close>) or checked.
\<close>

datatype event =
    AddProvider string Time
  | RemoveProvider string
  | Check string Provider Duration Time

fun step :: "(string \<rightharpoonup> ProviderMetrics) \<Rightarrow> event \<Rightarrow> (string \<rightharpoonup> ProviderMetrics)" where
  "step table (AddProvider nm now) = table(nm \<mapsto> newMetrics now)"
| "step table (RemoveProvider nm) = table(nm := None)"
| "step table (Check nm provider lat now) = fst (checkProvider table nm provider lat now)"

text \<open>The table of \<open>NewHealthChecker\<close> is empty; \<open>run\<close> applies events to it in order.\<close>

definition run :: "event list \<Rightarrow> (string \<rightharpoonup> ProviderMetrics)" where
  "run events = foldl step Map.empty events"

section \<open>Notions used to state the properties\<close>

text \<open>
  The slice \<open>scores\<close> of \<open>CostBasedPolicy.DecideRoute\<close> before it is sorted: the
  candidates that survive the filtering.
\<close>

definition survivingScores ::
  "CostBasedPolicy \<Rightarrow> ChatRequest \<Rightarrow> providers \<Rightarrow> providerScore list" where
  "survivingScores p req availableProviders =
     fst (scoreProviders p req (fst (getHealthyProviders availableProviders)))"

text \<open>
  A provider name qualifies for a request when the provider is present in the set,
  healthy, and supports the requested model.
\<close>

definition qualifies :: "providers \<Rightarrow> ChatRequest \<Rightarrow> string \<Rightarrow> bool" where
  "qualifies availableProviders req nm =
     (case map_of availableProviders nm of
        None \<Rightarrow> False
      | Some provider \<Rightarrow> IsHealthy provider \<and> providerSupportsModel provider (Model req))"

definition backupDecision :: "ChatRequest \<Rightarrow> string \<Rightarrow> RoutingDecision" where
  "backupDecision req b =
     \<lparr>ProviderName = b, DecisionModel = Model req, Reason = UsingBackup b,
      EstimatedCost = 0, EstimatedLatency = 0, Confidence = 8 / 10, Fallback = True\<rparr>"

text \<open>
  The counters of a metrics record are consistent, and its uptime is the one computed
  from them (zero while the provider has not been checked).
\<close>

definition counted :: "ProviderMetrics \<Rightarrow> bool" where
  "counted m =
     (0 \<le> SuccessfulChecks m \<and> SuccessfulChecks m \<le> TotalChecks m
      \<and> (if 0 < TotalChecks m
          then Uptime m = real_of_int (SuccessfulChecks m) / real_of_int (TotalChecks m) * 100
          else Uptime m = 0))"

text \<open>
  The smoothed average after a probe of latency \<open>lat\<close> has been fed into it: the
  latency itself while the stored average is zero, the moving average with factor
  \<open>0.1\<close>, cut to whole nanoseconds, otherwise.
\<close>

definition averaged :: "ProviderMetrics \<Rightarrow> Duration \<Rightarrow> Duration" where
  "averaged m lat =
     (if AverageLatency m = 0 then lat
      else truncate (real_of_int (AverageLatency m) * (1 - 1 / 10)
                     + real_of_int lat * (1 / 10)))"


text \<open>
  The outcomes (success or failure) of the checks of a provider since it was last
  registered, oldest first; \<open>None\<close> when the table holds no record for it.
\<close>

fun noteEvent :: "string \<Rightarrow> bool list option \<Rightarrow> event \<Rightarrow> bool list option" where
  "noteEvent nm h (AddProvider nm' now) = (if nm' = nm then Some [] else h)"
| "noteEvent nm h (RemoveProvider nm') = (if nm' = nm then None else h)"
| "noteEvent nm h (Check nm' provider lat now) =
     (if nm' = nm
      then Some ((case h of None \<Rightarrow> [] | Some outcomes \<Rightarrow> outcomes)
                 @ [case GetModels provider of Inl err \<Rightarrow> False | Inr models \<Rightarrow> True])
      else h)"

definition checksOf :: "event list \<Rightarrow> string \<Rightarrow> bool list option" where
  "checksOf events nm = foldl (noteEvent nm) None events"

definition successes :: "bool list \<Rightarrow> int" where
  "successes outcomes = int (length (filter (\<lambda>b. b) outcomes))"

definition failures :: "bool list \<Rightarrow> int" where
  "failures outcomes = int (length (filter (\<lambda>b. \<not> b) outcomes))"

text \<open>A metrics record, if any, carries the counts of a list of outcomes, if any.\<close>

definition tallied :: "bool list option \<Rightarrow> ProviderMetrics option \<Rightarrow> bool" where
  "tallied h r =
     (case h of
        None \<Rightarrow> r = None
      | Some outcomes \<Rightarrow>
          (case r of
             None \<Rightarrow> False
           | Some m \<Rightarrow>
               TotalChecks m = int (length outcomes)
               \<and> SuccessfulChecks m = successes outcomes
               \<and> FailedChecks m = failures outcomes))"

text \<open>
  The finite values of binary64: an integer of fewer than 54 bits times a power of two
  from \<open>2^-1074\<close> to \<open>2^971\<close>.  All of them are multiples of \<open>2^-1074\<close>.
\<close>

definition representable :: "real \<Rightarrow> bool" where
  "representable x =
     (\<exists>m e :: int. x = of_int m * 2 powr of_int e \<and> \<bar>m\<bar> < 2 ^ 53 \<and> - 1074 \<le> e \<and> e \<le> 971)"

definition onGrid :: "real \<Rightarrow> bool" where
  "onGrid x = (\<exists>k :: int. x = of_int k * 2 powr (- 1074))"

section \<open>Concrete inputs\<close>

definition exampleRequest :: ChatRequest where
  "exampleRequest =
     \<lparr>Model = ''m'', Messages = [\<lparr>Role = ''user'', Content = ''hi''\<rparr>], MaxTokens = 0\<rparr>"

text \<open>
  A provider with the given health flag that answers every request with the given
  model list, cost estimate and latency estimate.
\<close>

definition exampleProvider ::
  "bool \<Rightarrow> error + string list \<Rightarrow> error + real \<Rightarrow> error + Duration \<Rightarrow> Provider" where
  "exampleProvider h ms c l =
     \<lparr>health = \<lparr>Healthy = h, Latency = 0, LastCheck = 0, Error = []\<rparr>,
      GetModels = ms,
      GetCostEstimate = (\<lambda>req. c),
      GetLatencyEstimate = (\<lambda>req. l)\<rparr>"

definition healthyProvider :: "real \<Rightarrow> Duration \<Rightarrow> Provider" where
  "healthyProvider c l = exampleProvider True (Inr [''m'']) (Inr c) (Inr l)"

text \<open>
  Four healthy providers of the model: A and B, a cheap one whose latency estimate is
  above the default ceiling of five seconds, and one that has no latency estimate.
\<close>

definition exampleProviders :: providers where
  "exampleProviders =
     [(''A'', healthyProvider (1 / 100) (200 * Millisecond)),
      (''B'', healthyProvider (3 / 100) (100 * Millisecond)),
      (''slow'', healthyProvider (1 / 1000) (6 * Second)),
      (''blind'', exampleProvider True (Inr [''m'']) (Inr (1 / 10000)) (Inl ''no estimate''))]"

definition examplePolicy :: FailoverPolicy where
  "examplePolicy = NewFailoverPolicy ''primary'' [''first'', ''second'']"

definition exampleWeights :: "float64 \<times> float64 \<times> float64" where
  "exampleWeights = (Finite (1 / 2), Finite (1 / 4), Finite (1 / 4))"

definition exampleEvents :: "event list" where
  "exampleEvents =
     [AddProvider ''p'' 1,
      Check ''p'' (healthyProvider 0 0) 100 2]"

section \<open>Auxiliary facts\<close>

lemmas example_defs =
  exampleRequest_def exampleProvider_def healthyProvider_def exampleProviders_def
  NewCostBasedPolicy_def
  ValidateRequest_def IsHealthy_def providerSupportsModel_def Second_def Millisecond_def

lemmas cost_based_defs =
  CostBased_DecideRoute_def getHealthyProviders_def scoreProvider_def totalScore_def
  Milliseconds_def confidenceOf_def

lemma decide_ok:
  "fst (CostBased_DecideRoute p req provs) = Inr d \<longleftrightarrow>
     ValidateRequest req = None \<and>
     (\<exists>best others. sort_key score (survivingScores p req provs) = best # others \<and>
        d = \<lparr>ProviderName = name best, DecisionModel = Model req, Reason = reason best,
             EstimatedCost = cost best, EstimatedLatency = latency best,
             Confidence = confidenceOf best others, Fallback = False\<rparr>)"
  unfolding CostBased_DecideRoute_def survivingScores_def
  by (auto split: option.splits prod.splits list.splits if_splits)





lemma map_insort_key_eq: "map f (insort_key f a ys) = insort (f a) (map f ys)"
  by (induction ys) auto

lemma map_sort_key_eq: "map f (sort_key f xs) = sort (map f xs)"
  by (induction xs) (auto simp: map_insort_key_eq)



lemma tryBackups_find:
  "fst (tryBackups provs req bs) =
     map_option (backupDecision req) (List.find (qualifies provs req) bs)"
  by (induction bs)
     (auto simp: qualifies_def backupDecision_def split: option.splits prod.splits)

lemma tryPrimary_qualifies:
  "fst (tryPrimary p req provs now) =
     (shouldUsePrimary p now \<and> qualifies provs req (primaryProvider p))"
  by (auto simp: tryPrimary_def qualifies_def split: option.splits)

lemma checkProvider_lookup:
  "fst (checkProvider table nm provider lat now) k =
     (if k = nm then fst (checkProvider table nm provider lat now) nm else table k)"
  by (simp add: checkProvider_def Let_def)

lemma checkProvider_counted:
  assumes "\<And>m. table nm = Some m \<Longrightarrow> counted m"
    and "fst (checkProvider table nm provider lat now) nm = Some m'"
  shows "counted m'"
proof (cases "table nm")
  case None
  with assms(2) show ?thesis
    by (auto simp: checkProvider_def Let_def counted_def newMetrics_def split: sum.splits)
next
  case (Some m)
  with assms(1) have "counted m" by simp
  with Some assms(2) show ?thesis
    by (auto simp: checkProvider_def Let_def counted_def split: sum.splits if_splits)
qed

lemma step_counted:
  assumes "\<And>k m. table k = Some m \<Longrightarrow> counted m"
    and "step table ev k = Some m'"
  shows "counted m'"
proof (cases ev)
  case (AddProvider nm t)
  with assms show ?thesis
    by (auto simp: counted_def newMetrics_def split: if_splits)
next
  case (RemoveProvider nm)
  with assms show ?thesis
    by (auto split: if_splits)
next
  case (Check nm provider lat now)
  show ?thesis
  proof (cases "k = nm")
    case True
    with Check assms(2) have "fst (checkProvider table nm provider lat now) nm = Some m'"
      by simp
    with assms(1) show ?thesis
      using checkProvider_counted[of table nm] by blast
  next
    case False
    with Check assms(2) have "table k = Some m'"
      using checkProvider_lookup[of table nm provider lat now k] by simp
    with assms(1) show ?thesis by blast
  qed
qed

lemma foldl_step_counted:
  assumes "\<And>k m. table k = Some m \<Longrightarrow> counted m"
    and "foldl step table events k = Some m'"
  shows "counted m'"
  using assms
proof (induction events arbitrary: table k m')
  case Nil
  then show ?case by simp
next
  case (Cons ev events)
  have "\<And>k m. step table ev k = Some m \<Longrightarrow> counted m"
    using step_counted[of table ev] Cons.prems(1) by blast
  with Cons.IH[of "step table ev" k m'] Cons.prems(2) show ?case by simp
qed

lemma run_counted: "run events k = Some m \<Longrightarrow> counted m"
  unfolding run_def using foldl_step_counted[of Map.empty events k m] by simp

lemma run_snoc: "run (events @ [ev]) = step (run events) ev"
  by (simp add: run_def)

lemma counted_bounds:
  assumes "counted m"
  shows "0 \<le> Uptime m \<and> Uptime m \<le> 100"
proof (cases "0 < TotalChecks m")
  case True
  define q where "q = real_of_int (SuccessfulChecks m) / real_of_int (TotalChecks m)"
  from True assms have u: "Uptime m = q * 100"
    and s: "0 \<le> SuccessfulChecks m" "SuccessfulChecks m \<le> TotalChecks m"
    by (auto simp: counted_def q_def)
  from True s have "0 \<le> q" "q \<le> 1"
    unfolding q_def by simp_all
  with u show ?thesis by linarith
next
  case False
  with assms show ?thesis by (auto simp: counted_def)
qed


lemma checksOf_snoc: "checksOf (events @ [ev]) nm = noteEvent nm (checksOf events nm) ev"
  by (simp add: checksOf_def)

lemma step_tallied:
  assumes "tallied h (table nm)"
  shows "tallied (noteEvent nm h ev) (step table ev nm)"
proof (cases ev)
  case (AddProvider nm' t)
  with assms show ?thesis
    by (auto simp: tallied_def newMetrics_def successes_def failures_def)
next
  case (RemoveProvider nm')
  with assms show ?thesis
    by (auto simp: tallied_def)
next
  case (Check nm' provider lat now)
  show ?thesis
  proof (cases "nm' = nm")
    case False
    with Check assms show ?thesis
      using checkProvider_lookup[of table nm' provider lat now nm] by simp
  next
    case True
    with Check assms show ?thesis
      by (auto simp: tallied_def checkProvider_def Let_def newMetrics_def successes_def
            failures_def split: option.splits sum.splits)
  qed
qed

lemma run_tallied: "tallied (checksOf events nm) (run events nm)"
proof (induction events rule: rev_induct)
  case Nil
  show ?case by (simp add: checksOf_def run_def tallied_def)
next
  case (snoc ev events)
  then show ?case
    using step_tallied[of "checksOf events nm" "run events" nm ev]
    by (simp add: checksOf_snoc run_snoc)
qed

lemma roundEven_err: "\<bar>of_int (roundEven y) - y\<bar> \<le> 1 / 2"
  unfolding roundEven_def Let_def by (auto simp: abs_if) linarith+

lemma roundEven_int: "roundEven (of_int k) = k"
  by (simp add: roundEven_def)

lemma roundEven_nonneg: "0 \<le> y \<Longrightarrow> 0 \<le> roundEven y"
  unfolding roundEven_def Let_def by (auto simp: )

lemma ulp_pos: "0 < ulp x"
  by (simp add: ulp_def)

lemma scaled_err:
  assumes "0 < (p :: real)"
  shows "\<bar>n * p - x\<bar> = \<bar>n - x / p\<bar> * p"
proof -
  have "n * p - x = (n - x / p) * p"
    using assms by (simp add: field_simps)
  then have "\<bar>n * p - x\<bar> = \<bar>n - x / p\<bar> * \<bar>p\<bar>"
    by (simp add: abs_mult)
  with assms show ?thesis by simp
qed

lemma rnd_err_ulp: "\<bar>rnd x - x\<bar> \<le> ulp x / 2"
proof (cases "x = 0")
  case True
  then show ?thesis using ulp_pos[of x] by (simp add: rnd_def)
next
  case False
  have "\<bar>of_int (roundEven (x / ulp x)) - x / ulp x\<bar> \<le> 1 / 2"
    by (rule roundEven_err)
  then have "\<bar>of_int (roundEven (x / ulp x)) - x / ulp x\<bar> * ulp x \<le> 1 / 2 * ulp x"
    using ulp_pos[of x] by (intro mult_right_mono) auto
  then have "\<bar>of_int (roundEven (x / ulp x)) * ulp x - x\<bar> \<le> 1 / 2 * ulp x"
    using scaled_err[OF ulp_pos, of "of_int (roundEven (x / ulp x))" x x] by simp
  then show ?thesis using False by (simp add: rnd_def)
qed

lemma powr_int_eq: "0 \<le> j \<Longrightarrow> (2 :: real) powr of_int j = of_int (2 ^ nat j)"
  by (simp add: powr_int flip: power_int_def)

lemma exponent_normal:
  assumes "2 powr (- 1022) \<le> \<bar>x\<bar>"
  shows "exponent x = \<lfloor>log 2 \<bar>x\<bar>\<rfloor>" and "2 powr of_int (exponent x) \<le> \<bar>x\<bar>"
proof -
  have pos: "0 < \<bar>x\<bar>"
    using assms powr_gt_zero[of 2 "- 1022"] by linarith
  have "- 1022 \<le> log 2 \<bar>x\<bar>"
    using assms pos by (simp add: le_log_iff)
  then have "- 1022 \<le> \<lfloor>log 2 \<bar>x\<bar>\<rfloor>"
    by (simp add: le_floor_iff)
  then show e: "exponent x = \<lfloor>log 2 \<bar>x\<bar>\<rfloor>"
    by (simp add: exponent_def)
  have "of_int \<lfloor>log 2 \<bar>x\<bar>\<rfloor> \<le> log 2 \<bar>x\<bar>"
    by simp
  then have "2 powr of_int \<lfloor>log 2 \<bar>x\<bar>\<rfloor> \<le> 2 powr log 2 \<bar>x\<bar>"
    by (intro powr_mono) auto
  also have "\<dots> = \<bar>x\<bar>"
    using pos by simp
  finally show "2 powr of_int (exponent x) \<le> \<bar>x\<bar>"
    using e by simp
qed

lemma exponent_subnormal:
  assumes "\<bar>x\<bar> < 2 powr (- 1022)" "x \<noteq> 0"
  shows "exponent x = - 1022"
proof -
  have pos: "0 < \<bar>x\<bar>"
    using assms by simp
  have "log 2 \<bar>x\<bar> < - 1022"
    using assms pos by (simp add: log_less_iff)
  then have "\<lfloor>log 2 \<bar>x\<bar>\<rfloor> \<le> - 1022"
    by (simp add: floor_le_iff)
  then show ?thesis
    by (simp add: exponent_def)
qed

lemma half_powr: "(2 :: real) powr a / 2 = 2 powr (a - 1)"
proof -
  have "(2 :: real) powr (a - 1) = 2 powr a / 2 powr 1"
    by (rule powr_diff)
  then show ?thesis by simp
qed

lemma rnd_err_normal:
  assumes "2 powr (- 1022) \<le> \<bar>x\<bar>"
  shows "\<bar>rnd x - x\<bar> \<le> 2 powr (- 53) * \<bar>x\<bar>"
proof -
  have "ulp x / 2 = 2 powr (of_int (exponent x) - 52 - 1)"
    unfolding ulp_def by (rule half_powr)
  also have "of_int (exponent x) - 52 - 1 = of_int (exponent x) + (- 53 :: real)"
    by simp
  also have "2 powr (of_int (exponent x) + (- 53 :: real))
             = 2 powr of_int (exponent x) * 2 powr (- 53)"
    by (rule powr_add)
  also have "\<dots> \<le> \<bar>x\<bar> * 2 powr (- 53)"
    using exponent_normal(2)[OF assms] by (intro mult_right_mono) auto
  finally show ?thesis
    using rnd_err_ulp[of x] by (simp add: mult.commute)
qed

lemma ulp_subnormal:
  assumes "\<bar>x\<bar> < 2 powr (- 1022)" "x \<noteq> 0"
  shows "ulp x = 2 powr (- 1074)"
  using exponent_subnormal[OF assms] by (simp add: ulp_def)

lemma rnd_err_subnormal:
  assumes "\<bar>x\<bar> < 2 powr (- 1022)"
  shows "\<bar>rnd x - x\<bar> \<le> 2 powr (- 1075)"
proof (cases "x = 0")
  case True
  then show ?thesis by (simp add: rnd_def)
next
  case False
  have "ulp x / 2 = 2 powr (- 1074 - 1)"
    unfolding ulp_subnormal[OF assms False] by (rule half_powr)
  also have "(- 1074 - 1 :: real) = - 1075"
    by simp
  finally show ?thesis
    using rnd_err_ulp[of x] by simp
qed

lemma rnd_grid_exact:
  assumes "onGrid x" "\<bar>x\<bar> < 2 powr (- 1022)"
  shows "rnd x = x"
proof (cases "x = 0")
  case True
  then show ?thesis by (simp add: rnd_def)
next
  case False
  from assms(1) obtain k :: int where k: "x = of_int k * 2 powr (- 1074)"
    by (auto simp: onGrid_def)
  have u: "ulp x = 2 powr (- 1074)"
    by (rule ulp_subnormal[OF assms(2) False])
  have "x / ulp x = of_int k"
    using k u by simp
  then have "roundEven (x / ulp x) = k"
    by (simp add: roundEven_int)
  then show ?thesis
    using False k u by (simp add: rnd_def)
qed

lemma rnd_err_grid:
  assumes "onGrid x"
  shows "\<bar>rnd x - x\<bar> \<le> 2 powr (- 53) * \<bar>x\<bar>"
proof (cases "2 powr (- 1022) \<le> \<bar>x\<bar>")
  case True
  then show ?thesis by (rule rnd_err_normal)
next
  case False
  then have "rnd x = x"
    using rnd_grid_exact[OF assms] by simp
  then show ?thesis by simp
qed

lemma rnd_err:
  "\<bar>rnd x - x\<bar> \<le> 2 powr (- 53) * \<bar>x\<bar> + 2 powr (- 1075)"
proof (cases "2 powr (- 1022) \<le> \<bar>x\<bar>")
  case True
  then have "\<bar>rnd x - x\<bar> \<le> 2 powr (- 53) * \<bar>x\<bar>"
    by (rule rnd_err_normal)
  moreover have "0 \<le> (2 :: real) powr (- 1075)"
    by simp
  ultimately show ?thesis by linarith
next
  case False
  then have "\<bar>rnd x - x\<bar> \<le> 2 powr (- 1075)"
    using rnd_err_subnormal[of x] by simp
  moreover have "0 \<le> 2 powr (- 53) * \<bar>x\<bar>"
    by simp
  ultimately show ?thesis by linarith
qed

lemma rnd_nonneg:
  assumes "0 \<le> x"
  shows "0 \<le> rnd x"
proof -
  have "0 \<le> x / ulp x"
    using assms ulp_pos[of x] by simp
  then have "0 \<le> roundEven (x / ulp x)"
    by (rule roundEven_nonneg)
  then show ?thesis
    using ulp_pos[of x] by (simp add: rnd_def)
qed

lemma onGrid_add: "onGrid x \<Longrightarrow> onGrid y \<Longrightarrow> onGrid (x + y)"
proof -
  assume "onGrid x" "onGrid y"
  then obtain k j :: int where "x = of_int k * 2 powr (- 1074)" "y = of_int j * 2 powr (- 1074)"
    by (auto simp: onGrid_def)
  then have "x + y = of_int (k + j) * 2 powr (- 1074)"
    by (simp add: distrib_right)
  then show ?thesis
    unfolding onGrid_def by blast
qed

lemma scaled_onGrid:
  assumes "- 1074 \<le> e"
  shows "onGrid (of_int m * 2 powr of_int e)"
proof -
  have "of_int e = of_int (e + 1074) + (- 1074 :: real)"
    by simp
  then have "(2 :: real) powr of_int e = 2 powr of_int (e + 1074) * 2 powr (- 1074)"
    using powr_add[of "2 :: real" "of_int (e + 1074)" "- 1074"] by simp
  also have "(2 :: real) powr of_int (e + 1074) = of_int (2 ^ nat (e + 1074))"
    using assms by (intro powr_int_eq) simp
  finally have "(of_int m :: real) * 2 powr of_int e
                = of_int (m * 2 ^ nat (e + 1074)) * 2 powr (- 1074)"
    by simp
  then show ?thesis
    unfolding onGrid_def by blast
qed

lemma representable_onGrid: "representable x \<Longrightarrow> onGrid x"
  unfolding representable_def using scaled_onGrid by blast

lemma exponent_ge: "- 1022 \<le> exponent x"
  by (simp add: exponent_def)

lemma rnd_onGrid: "onGrid (rnd x)"
proof (cases "x = 0")
  case True
  have "(0 :: real) = of_int 0 * 2 powr (- 1074)"
    by simp
  then have "onGrid 0"
    unfolding onGrid_def by blast
  with True show ?thesis by (simp add: rnd_def)
next
  case False
  have "ulp x = 2 powr of_int (exponent x - 52)"
    by (simp add: ulp_def)
  moreover have "- 1074 \<le> exponent x - 52"
    using exponent_ge[of x] by simp
  ultimately have "onGrid (of_int (roundEven (x / ulp x)) * ulp x)"
    using scaled_onGrid[of "exponent x - 52" "roundEven (x / ulp x)"] by simp
  with False show ?thesis by (simp add: rnd_def)
qed

lemma exponent_le:
  assumes x: "x = of_int m * 2 powr of_int e" and m: "\<bar>m\<bar> < 2 ^ 53" and x0: "x \<noteq> 0"
    and e: "- 1074 \<le> e"
  shows "exponent x - 52 \<le> e"
proof (cases "2 powr (- 1022) \<le> \<bar>x\<bar>")
  case False
  then have "exponent x = - 1022"
    using exponent_subnormal[of x] x0 by simp
  with e show ?thesis by simp
next
  case True
  have pos: "0 < \<bar>x\<bar>"
    using x0 by simp
  have "\<bar>x\<bar> = of_int \<bar>m\<bar> * 2 powr of_int e"
    using x by (simp add: abs_mult)
  also have "\<dots> < 2 ^ 53 * 2 powr of_int e"
  proof (intro mult_strict_right_mono)
    have "(of_int \<bar>m\<bar> :: real) < of_int (2 ^ 53)"
      using m by (simp only: of_int_less_iff)
    then show "(of_int \<bar>m\<bar> :: real) < 2 ^ 53"
      by simp
  qed simp
  also have "(2 :: real) ^ 53 = 2 powr 53"
    by (simp add: powr_realpow[symmetric])
  also have "(2 :: real) powr 53 * 2 powr of_int e = 2 powr (53 + of_int e)"
    by (rule powr_add[symmetric])
  finally have "\<bar>x\<bar> < 2 powr (53 + of_int e)" .
  then have "log 2 \<bar>x\<bar> < 53 + of_int e"
    using pos by (simp add: log_less_iff)
  then have "log 2 \<bar>x\<bar> < of_int (53 + e)"
    by simp
  then have "\<lfloor>log 2 \<bar>x\<bar>\<rfloor> < 53 + e"
    by (simp only: floor_less_iff)
  then show ?thesis
    using exponent_normal(1)[OF True] by simp
qed

lemma rnd_exact:
  assumes x: "x = of_int m * 2 powr of_int e" and m: "\<bar>m\<bar> < 2 ^ 53" and e: "- 1074 \<le> e"
  shows "rnd x = x"
proof (cases "x = 0")
  case True
  then show ?thesis by (simp add: rnd_def)
next
  case False
  define d where "d = e - (exponent x - 52)"
  have d: "0 \<le> d"
    using exponent_le[OF x m False e] by (simp add: d_def)
  have "of_int e = of_int d + (of_int (exponent x) - 52 :: real)"
    by (simp add: d_def)
  then have "(2 :: real) powr of_int e = 2 powr of_int d * ulp x"
    using powr_add[of "2 :: real" "of_int d" "of_int (exponent x) - 52"]
    by (simp add: ulp_def)
  also have "(2 :: real) powr of_int d = of_int (2 ^ nat d)"
    using d by (rule powr_int_eq)
  finally have xu: "x = of_int (m * 2 ^ nat d) * ulp x"
    using x by simp
  then have "x / ulp x = of_int (m * 2 ^ nat d)"
    using ulp_pos[of x] by (metis less_irrefl nonzero_mult_div_cancel_right)
  then have "roundEven (x / ulp x) = m * 2 ^ nat d"
    by (simp only: roundEven_int)
  then show ?thesis
    using False xu by (simp add: rnd_def)
qed

lemma weights_close:
  fixes x y z T1 T a b d \<eta> :: real
  assumes nn: "0 \<le> x" "0 \<le> y" "0 \<le> z"
    and t1: "\<bar>T1 - (x + y)\<bar> \<le> 1 / 2 ^ 53 * (x + y)"
    and t: "\<bar>T - (T1 + z)\<bar> \<le> 1 / 2 ^ 53 * (T1 + z)"
    and tpos: "0 < T"
    and eta: "0 \<le> \<eta>" "\<eta> \<le> 1 / 2 ^ 53"
    and a: "\<bar>a - x / T\<bar> \<le> 1 / 2 ^ 53 * (x / T) + \<eta>"
    and b: "\<bar>b - y / T\<bar> \<le> 1 / 2 ^ 53 * (y / T) + \<eta>"
    and d: "\<bar>d - z / T\<bar> \<le> 1 / 2 ^ 53 * (z / T) + \<eta>"
  shows "0 < x + y + z"
    and "\<bar>a + b + d - 1\<bar> \<le> 1 / 2 ^ 50"
    and "\<bar>a - x / (x + y + z)\<bar> \<le> 1 / 2 ^ 50"
    and "\<bar>b - y / (x + y + z)\<bar> \<le> 1 / 2 ^ 50"
    and "\<bar>d - z / (x + y + z)\<bar> \<le> 1 / 2 ^ 50"
    and "\<bar>a\<bar> \<le> 3" and "\<bar>b\<bar> \<le> 3" and "\<bar>d\<bar> \<le> 3"
proof -
  define S where "S = x + y + z"
  have t1': "T1 - (x + y) \<le> 1 / 2 ^ 53 * (x + y)" "- (T1 - (x + y)) \<le> 1 / 2 ^ 53 * (x + y)"
    using t1 unfolding abs_le_iff by blast+
  have t': "T - (T1 + z) \<le> 1 / 2 ^ 53 * (T1 + z)" "- (T - (T1 + z)) \<le> 1 / 2 ^ 53 * (T1 + z)"
    using t unfolding abs_le_iff by blast+
  have lo: "S \<le> (1 + 3 / 2 ^ 53) * T"
    using nn t1' t' unfolding S_def by simp
  have hi: "(1 - 3 / 2 ^ 53) * T \<le> S"
    using nn t1' t' unfolding S_def by simp
  show spos: "0 < x + y + z"
    using hi tpos unfolding S_def by simp
  then have S0: "S \<noteq> 0" "0 < S"
    by (simp_all add: S_def)
  define \<rho> where "\<rho> = S / T"
  have r1: "\<rho> \<le> 1 + 3 / 2 ^ 53"
    unfolding \<rho>_def using lo tpos by (simp add: pos_divide_le_eq)
  have r2: "1 - 3 / 2 ^ 53 \<le> \<rho>"
    unfolding \<rho>_def using hi tpos by (simp add: pos_le_divide_eq)
  define qx qy qz where "qx = x / T" and "qy = y / T" and "qz = z / T"
  have q: "qx + qy + qz = \<rho>"
    unfolding \<rho>_def S_def qx_def qy_def qz_def by (simp add: add_divide_distrib)
  have q0: "0 \<le> qx" "0 \<le> qy" "0 \<le> qz"
    using nn tpos by (simp_all add: qx_def qy_def qz_def)
  have a': "a - qx \<le> 1 / 2 ^ 53 * qx + \<eta>" "- (a - qx) \<le> 1 / 2 ^ 53 * qx + \<eta>"
    using a unfolding abs_le_iff qx_def by blast+
  have b': "b - qy \<le> 1 / 2 ^ 53 * qy + \<eta>" "- (b - qy) \<le> 1 / 2 ^ 53 * qy + \<eta>"
    using b unfolding abs_le_iff qy_def by blast+
  have d': "d - qz \<le> 1 / 2 ^ 53 * qz + \<eta>" "- (d - qz) \<le> 1 / 2 ^ 53 * qz + \<eta>"
    using d unfolding abs_le_iff qz_def by blast+
  show "\<bar>a + b + d - 1\<bar> \<le> 1 / 2 ^ 50"
    using a' b' d' q q0 r1 r2 eta unfolding abs_le_iff by simp
  show "\<bar>a\<bar> \<le> 3" "\<bar>b\<bar> \<le> 3" "\<bar>d\<bar> \<le> 3"
    using a' b' d' q q0 r1 r2 eta unfolding abs_le_iff by simp_all
  have close: "\<bar>w - v / S\<bar> \<le> 1 / 2 ^ 50"
    if v: "0 \<le> v" "v \<le> S" and w: "\<bar>w - v / T\<bar> \<le> 1 / 2 ^ 53 * (v / T) + \<eta>" for v w
  proof -
    define p where "p = v / S"
    have p: "0 \<le> p" "p \<le> 1"
      using v S0 by (simp_all add: p_def)
    have vt: "v / T = p * \<rho>"
      unfolding p_def \<rho>_def using S0 tpos by simp
    have "p * (\<rho> - 1) \<le> p * (3 / 2 ^ 53)"
      using p r1 by (intro mult_left_mono) auto
    then have u1: "p * \<rho> - p \<le> 3 / 2 ^ 53"
      using p by (simp add: algebra_simps)
    have "p * (1 - \<rho>) \<le> p * (3 / 2 ^ 53)"
      using p r2 by (intro mult_left_mono) auto
    then have u2: "p - p * \<rho> \<le> 3 / 2 ^ 53"
      using p by (simp add: algebra_simps)
    have "p * \<rho> \<le> 1 * (1 + 3 / 2 ^ 53)"
      using p r1 r2 by (intro mult_mono) auto
    then have u3: "p * \<rho> \<le> 1 + 3 / 2 ^ 53"
      by simp
    have u4: "0 \<le> p * \<rho>"
      using p r2 by (intro mult_nonneg_nonneg) auto
    define pr where "pr = p * \<rho>"
    from w have "\<bar>w - pr\<bar> \<le> 1 / 2 ^ 53 * pr + \<eta>"
      by (simp only: vt pr_def)
    then have w': "w - pr \<le> 1 / 2 ^ 53 * pr + \<eta>" "- (w - pr) \<le> 1 / 2 ^ 53 * pr + \<eta>"
      unfolding abs_le_iff by blast+
    from u1 u2 u3 u4 have "pr - p \<le> 3 / 2 ^ 53" "p - pr \<le> 3 / 2 ^ 53"
      "pr \<le> 1 + 3 / 2 ^ 53" "0 \<le> pr"
      by (simp_all only: pr_def)
    with w' eta show ?thesis
      unfolding p_def[symmetric] abs_le_iff by simp
  qed
  show "\<bar>a - x / (x + y + z)\<bar> \<le> 1 / 2 ^ 50"
    using close[of x a] nn a by (simp add: S_def)
  show "\<bar>b - y / (x + y + z)\<bar> \<le> 1 / 2 ^ 50"
    using close[of y b] nn b by (simp add: S_def)
  show "\<bar>d - z / (x + y + z)\<bar> \<le> 1 / 2 ^ 50"
    using close[of z d] nn d by (simp add: S_def)
qed

lemma u_numeral: "(2 :: real) powr (- 53) = 1 / 2 ^ 53"
  by (simp add: powr_minus_divide)

lemma eta_small: "0 \<le> (2 :: real) powr (- 1075)" "(2 :: real) powr (- 1075) \<le> 1 / 2 ^ 53"
proof -
  show "0 \<le> (2 :: real) powr (- 1075)"
    by simp
  have "(2 :: real) powr (- 1075) \<le> 2 powr (- 53)"
    by (intro powr_mono) auto
  then show "(2 :: real) powr (- 1075) \<le> 1 / 2 ^ 53"
    by (simp only: u_numeral)
qed

lemma fromReal_Finite: "fromReal r = Finite t \<Longrightarrow> t = rnd r"
  by (auto simp: fromReal_def Let_def split: if_splits)

lemma fromReal_small:
  assumes "\<bar>rnd r\<bar> \<le> 3"
  shows "fromReal r = Finite (rnd r)"
proof -
  have "(3 :: real) < 2 ^ 1024"
    by simp
  with assms have "rnd r < 2 ^ 1024" "- (2 ^ 1024) < rnd r"
    by linarith+
  then show ?thesis
    by (simp add: fromReal_def Let_def)
qed

lemma fadd_Finite_right:
  assumes "fadd f (Finite z) = Finite t"
  obtains s where "f = Finite s"
  using assms by (cases f) auto

lemma SetWeights_normalises:
  assumes rep: "representable x" "representable y" "representable z"
    and nn: "0 \<le> x" "0 \<le> y" "0 \<le> z"
    and total: "fadd (fadd (Finite x) (Finite y)) (Finite z) = Finite t"
    and pos: "0 < t"
  shows "\<exists>a b d. SetWeights w (Finite x) (Finite y) (Finite z) = ((Finite a, Finite b, Finite d), None)
           \<and> \<bar>a + b + d - 1\<bar> \<le> 1 / 2 ^ 50
           \<and> 0 < x + y + z
           \<and> \<bar>a - x / (x + y + z)\<bar> \<le> 1 / 2 ^ 50
           \<and> \<bar>b - y / (x + y + z)\<bar> \<le> 1 / 2 ^ 50
           \<and> \<bar>d - z / (x + y + z)\<bar> \<le> 1 / 2 ^ 50"
proof -
  from total obtain s where s: "fadd (Finite x) (Finite y) = Finite s"
    by (rule fadd_Finite_right)
  then have s_eq: "s = rnd (x + y)"
    by (simp add: fromReal_Finite)
  from total s have t_eq: "t = rnd (s + z)"
    by (simp add: fromReal_Finite)
  have g: "onGrid x" "onGrid y" "onGrid z"
    using rep by (simp_all add: representable_onGrid)
  have "\<bar>s - (x + y)\<bar> \<le> 2 powr (- 53) * \<bar>x + y\<bar>"
    unfolding s_eq using g by (intro rnd_err_grid onGrid_add)
  then have e1: "\<bar>s - (x + y)\<bar> \<le> 1 / 2 ^ 53 * (x + y)"
    using nn unfolding u_numeral by simp
  have s0: "0 \<le> s"
    unfolding s_eq using nn by (intro rnd_nonneg) simp
  have "onGrid s"
    unfolding s_eq by (rule rnd_onGrid)
  then have "\<bar>t - (s + z)\<bar> \<le> 2 powr (- 53) * \<bar>s + z\<bar>"
    unfolding t_eq using g by (intro rnd_err_grid onGrid_add)
  then have e2: "\<bar>t - (s + z)\<bar> \<le> 1 / 2 ^ 53 * (s + z)"
    using nn s0 unfolding u_numeral by simp
  have q: "\<bar>rnd (v / t) - v / t\<bar> \<le> 1 / 2 ^ 53 * (v / t) + 2 powr (- 1075)" if "0 \<le> v" for v
  proof -
    have "0 \<le> v / t"
      using that pos by simp
    then show ?thesis
      using rnd_err[of "v / t"] unfolding u_numeral by simp
  qed
  note close = weights_close[OF nn e1 e2 pos eta_small q[OF nn(1)] q[OF nn(2)] q[OF nn(3)]]
  have fin: "fdiv (Finite v) (Finite t) = Finite (rnd (v / t))" if "\<bar>rnd (v / t)\<bar> \<le> 3" for v
    using that pos fromReal_small[of "v / t"] by simp
  have "\<not> fle (Finite t) (Finite 0)"
    using pos by simp
  then have "SetWeights w (Finite x) (Finite y) (Finite z)
      = ((Finite (rnd (x / t)), Finite (rnd (y / t)), Finite (rnd (z / t))), None)"
    using total fin[OF close(6)] fin[OF close(7)] fin[OF close(8)]
    by (simp add: SetWeights_def Let_def)
  with close(1-5) show ?thesis
    by blast
qed

lemma exponent_eq:
  assumes "2 powr of_int k \<le> \<bar>x\<bar>" "\<bar>x\<bar> < 2 powr of_int (k + 1)" "- 1022 \<le> k"
  shows "exponent x = k"
proof -
  have "0 < \<bar>x\<bar>"
    using assms(1) powr_gt_zero[of 2 "of_int k"] by linarith
  then have "\<lfloor>log 2 \<bar>x\<bar>\<rfloor> = k"
    using assms(1,2) by (simp add: floor_log_eq_powr_iff)
  with assms(3) show ?thesis
    by (simp add: exponent_def)
qed

lemma rnd_eval:
  assumes "2 powr of_int k \<le> \<bar>x\<bar>" "\<bar>x\<bar> < 2 powr of_int (k + 1)" "- 1022 \<le> k"
  shows "rnd x = of_int (roundEven (x / 2 powr of_int (k - 52))) * 2 powr of_int (k - 52)"
proof -
  have "x \<noteq> 0"
    using assms(1) powr_gt_zero[of 2 "of_int k"] by auto
  moreover have "ulp x = 2 powr of_int (k - 52)"
    using exponent_eq[OF assms] by (simp add: ulp_def)
  ultimately show ?thesis
    by (simp add: rnd_def)
qed

lemma rnd_int: "\<bar>m\<bar> < 2 ^ 53 \<Longrightarrow> rnd (of_int m) = of_int m"
  using rnd_exact[of "of_int m" m 0] by simp

lemma representable_int: "\<bar>m\<bar> < 2 ^ 53 \<Longrightarrow> representable (of_int m)"
  unfolding representable_def
  by (rule exI[of _ m], rule exI[of _ 0]) simp

lemma rnd_values:
  "rnd 3 = 3" "rnd 4 = 4" "rnd (1 / 2) = 1 / 2" "rnd (1 / 4) = 1 / 4" "rnd 0 = 0"
  "rnd (- 6004799503160660) = - 6004799503160660"
  "rnd (2 ^ 1024) = 2 ^ 1024"
proof -
  show "rnd 3 = 3" using rnd_int[of 3] by simp
  show "rnd 4 = 4" using rnd_int[of 4] by simp
  show "rnd 0 = 0" by (simp add: rnd_def)
  show "rnd (- 6004799503160660) = - 6004799503160660"
    using rnd_int[of "- 6004799503160660"] by simp
  show "rnd (1 / 2) = 1 / 2"
    using rnd_exact[of "1 / 2" 1 "- 1"] by (simp add: powr_minus_divide)
  show "rnd (1 / 4) = 1 / 4"
    using rnd_exact[of "1 / 4" 1 "- 2"] by (simp add: powr_minus_divide)
  show "rnd (2 ^ 1024) = 2 ^ 1024"
    using rnd_exact[of "2 ^ 1024" 1 1024] by simp
qed

lemma rnd_absorbed: "rnd (1 + 2 ^ 53) = 2 ^ 53"
  using rnd_eval[of 53 "1 + 2 ^ 53"] by (simp add: roundEven_def)

lemma rnd_third: "rnd (- 1 / 3) = - (6004799503160661 / 2 ^ 54)"
  using rnd_eval[of "- 2" "- 1 / 3"] by (simp add: roundEven_def powr_minus_divide)

lemma rnd_big_third: "rnd (2 ^ 54 / 3) = 6004799503160661"
  using rnd_eval[of 52 "2 ^ 54 / 3"] by (simp add: roundEven_def)

section \<open>The cost-based strategy\<close>

text \<open>
  C1 (as amended).  Default weights (cost 0.6, latency 0.3, health 0.1), default latency
  ceiling of five seconds, and exactly two candidates, both healthy and supporting the
  model: A with cost estimate 0.01 and latency estimate 200 ms, B with cost estimate
  0.03 and latency estimate 100 ms.  In whichever order the two are visited,
  \<open>DecideRoute\<close> succeeds and chooses B, whose composite score 0.048 is below the 0.066
  of A, with confidence 0.875 and \<open>Fallback = False\<close>.
\<close>

theorem C1_default_scenario_picks_B:
  assumes "ValidateRequest req = None"
    and "a \<noteq> b"
    and "IsHealthy pa" and "providerSupportsModel pa (Model req)"
    and "GetCostEstimate pa req = Inr (1 / 100)"
    and "GetLatencyEstimate pa req = Inr (200 * Millisecond)"
    and "IsHealthy pb" and "providerSupportsModel pb (Model req)"
    and "GetCostEstimate pb req = Inr (3 / 100)"
    and "GetLatencyEstimate pb req = Inr (100 * Millisecond)"
    and "provs = [(a, pa), (b, pb)] \<or> provs = [(b, pb), (a, pa)]"
  shows "fst (CostBased_DecideRoute NewCostBasedPolicy req provs)
         = Inr \<lparr>ProviderName = b, DecisionModel = Model req,
                 Reason = CostLatency (3 / 100) (100 * Millisecond),
                 EstimatedCost = 3 / 100, EstimatedLatency = 100 * Millisecond,
                 Confidence = 7 / 8, Fallback = False\<rparr>"
  using assms
  by (auto simp add: cost_based_defs NewCostBasedPolicy_def Second_def Millisecond_def)

text \<open>The scenario of C1 on concrete providers, visited in the order B, A.\<close>

theorem C1_default_scenario_witness:
  "ValidateRequest exampleRequest = None
   \<and> IsHealthy (healthyProvider (1 / 100) (200 * Millisecond))
   \<and> providerSupportsModel (healthyProvider (1 / 100) (200 * Millisecond)) (Model exampleRequest)
   \<and> IsHealthy (healthyProvider (3 / 100) (100 * Millisecond))
   \<and> providerSupportsModel (healthyProvider (3 / 100) (100 * Millisecond)) (Model exampleRequest)
   \<and> fst (CostBased_DecideRoute NewCostBasedPolicy exampleRequest
            [(''B'', healthyProvider (3 / 100) (100 * Millisecond)),
             (''A'', healthyProvider (1 / 100) (200 * Millisecond))])
       = Inr \<lparr>ProviderName = ''B'', DecisionModel = ''m'',
               Reason = CostLatency (3 / 100) (100 * Millisecond),
               EstimatedCost = 3 / 100, EstimatedLatency = 100 * Millisecond,
               Confidence = 7 / 8, Fallback = False\<rparr>"
proof -
  let ?pa = "healthyProvider (1 / 100) (200 * Millisecond)"
  let ?pb = "healthyProvider (3 / 100) (100 * Millisecond)"
  have v: "ValidateRequest exampleRequest = None"
    by (simp add: example_defs)
  have ab: "''A'' \<noteq> ''B''"
    by simp
  have a: "IsHealthy ?pa" "providerSupportsModel ?pa (Model exampleRequest)"
    "GetCostEstimate ?pa exampleRequest = Inr (1 / 100)"
    "GetLatencyEstimate ?pa exampleRequest = Inr (200 * Millisecond)"
    by (simp_all add: example_defs)
  have b: "IsHealthy ?pb" "providerSupportsModel ?pb (Model exampleRequest)"
    "GetCostEstimate ?pb exampleRequest = Inr (3 / 100)"
    "GetLatencyEstimate ?pb exampleRequest = Inr (100 * Millisecond)"
    by (simp_all add: example_defs)
  have m: "Model exampleRequest = ''m''"
    by (simp add: exampleRequest_def)
  from C1_default_scenario_picks_B[OF v ab a b, of "[(''B'', ?pb), (''A'', ?pa)]"]
  show ?thesis
    using v a(1,2) b(1,2) m by simp
qed

text \<open>
  C1 as stated fails: in the scenario, visited in the order A, B, the decision names B
  and not A, because the composite score of B is the lower one.
\<close>

theorem C1_counterexample:
  "fst (CostBased_DecideRoute NewCostBasedPolicy exampleRequest
          [(''A'', healthyProvider (1 / 100) (200 * Millisecond)),
           (''B'', healthyProvider (3 / 100) (100 * Millisecond))])
   = Inr \<lparr>ProviderName = ''B'', DecisionModel = ''m'',
           Reason = CostLatency (3 / 100) (100 * Millisecond),
           EstimatedCost = 3 / 100, EstimatedLatency = 100 * Millisecond,
           Confidence = 7 / 8, Fallback = False\<rparr>
   \<and> totalScore NewCostBasedPolicy (3 / 100) (100 * Millisecond) = 48 / 1000
   \<and> totalScore NewCostBasedPolicy (1 / 100) (200 * Millisecond) = 66 / 1000"
  by (simp add: cost_based_defs example_defs)




text \<open>
  C3 (as amended).  For every successful cost-based decision, with the scores of the
  surviving candidates in ascending order: if exactly one candidate survives, the
  confidence is 1.0; if two or more survive and the second score is greater than the
  best score, the confidence is 0.8 + 0.2 * (second - best) / best, clamped so that it
  never exceeds 1.0 (a best score of zero gives 1.0, the clamped infinite quotient); if
  two or more survive and the second score equals the best score, the confidence is 1.0.
\<close>

theorem C3_confidence:
  assumes "fst (CostBased_DecideRoute p req provs) = Inr d"
  shows "(case sort (map score (survivingScores p req provs)) of
            [] \<Rightarrow> False
          | [bestScore] \<Rightarrow> Confidence d = 1
          | bestScore # secondScore # rest \<Rightarrow>
              Confidence d =
                (if secondScore > bestScore
                 then (if bestScore = 0 then 1
                       else min 1 (8 / 10 + 2 / 10 * ((secondScore - bestScore) / bestScore)))
                 else 1))"
proof -
  from assms obtain best others where
    srt: "sort_key score (survivingScores p req provs) = best # others" and
    d: "Confidence d = confidenceOf best others"
    unfolding decide_ok by auto
  have "sort (map score (survivingScores p req provs)) = score best # map score others"
    using srt map_sort_key_eq[of score "survivingScores p req provs"] by simp
  then show ?thesis
    using d by (cases others) (auto simp: confidenceOf_def Let_def min_def)
qed

text \<open>
  C3 on the providers A and B of the default scenario: the scores are 0.048 and 0.066,
  and the confidence is 0.8 + 0.2 * 0.018 / 0.048 = 0.875.
\<close>

theorem C3_confidence_witness:
  "fst (CostBased_DecideRoute NewCostBasedPolicy exampleRequest (take 2 exampleProviders))
     = Inr \<lparr>ProviderName = ''B'', DecisionModel = ''m'',
             Reason = CostLatency (3 / 100) (100 * Millisecond),
             EstimatedCost = 3 / 100, EstimatedLatency = 100 * Millisecond,
             Confidence = 7 / 8, Fallback = False\<rparr>
   \<and> sort (map score (survivingScores NewCostBasedPolicy exampleRequest
                        (take 2 exampleProviders))) = [48 / 1000, 66 / 1000]
   \<and> min 1 (8 / 10 + 2 / 10 * ((66 / 1000 - 48 / 1000) / (48 / 1000))) = (7 / 8 :: real)"
proof -
  let ?d = "\<lparr>ProviderName = ''B'', DecisionModel = ''m'',
               Reason = CostLatency (3 / 100) (100 * Millisecond),
               EstimatedCost = 3 / 100, EstimatedLatency = 100 * Millisecond,
               Confidence = 7 / 8, Fallback = False\<rparr>"
  have ok: "fst (CostBased_DecideRoute NewCostBasedPolicy exampleRequest
                   (take 2 exampleProviders)) = Inr ?d"
    by (simp add: cost_based_defs example_defs)
  have sc: "sort (map score (survivingScores NewCostBasedPolicy exampleRequest
                        (take 2 exampleProviders))) = [48 / 1000, 66 / 1000]"
    by (simp add: survivingScores_def cost_based_defs example_defs)
  from C3_confidence[OF ok] ok sc
  show ?thesis by simp
qed

text \<open>
  C3 as stated fails on a tie: two surviving candidates with the same score 0.066 give
  the confidence 1.0, not 0.8.
\<close>

theorem C3_counterexample:
  "fst (CostBased_DecideRoute NewCostBasedPolicy exampleRequest
          [(''A'', healthyProvider (1 / 100) (200 * Millisecond)),
           (''B'', healthyProvider (1 / 100) (200 * Millisecond))])
   = Inr \<lparr>ProviderName = ''A'', DecisionModel = ''m'',
           Reason = CostLatency (1 / 100) (200 * Millisecond),
           EstimatedCost = 1 / 100, EstimatedLatency = 200 * Millisecond,
           Confidence = 1, Fallback = False\<rparr>
   \<and> map score (survivingScores NewCostBasedPolicy exampleRequest
          [(''A'', healthyProvider (1 / 100) (200 * Millisecond)),
           (''B'', healthyProvider (1 / 100) (200 * Millisecond))]) = [66 / 1000, 66 / 1000]
   \<and> (1 :: real) \<noteq> 8 / 10"
  by (simp add: survivingScores_def cost_based_defs example_defs)

text \<open>
  C10.  Whenever the cost-based \<open>DecideRoute\<close> succeeds, the decision has
  \<open>Fallback = False\<close> and its model is the model of the request.
\<close>

theorem C10_never_fallback:
  assumes "fst (CostBased_DecideRoute p req provs) = Inr d"
  shows "Fallback d = False \<and> DecisionModel d = Model req"
  using assms unfolding decide_ok by auto

text \<open>
  C10 where the cheapest candidate is dropped by the latency ceiling and the costlier A
  is chosen: the decision is still not a fallback.
\<close>

theorem C10_never_fallback_witness:
  "fst (CostBased_DecideRoute NewCostBasedPolicy exampleRequest
          [(''slow'', healthyProvider (1 / 1000) (6 * Second)),
           (''A'', healthyProvider (1 / 100) (200 * Millisecond))])
   = Inr \<lparr>ProviderName = ''A'', DecisionModel = ''m'',
           Reason = CostLatency (1 / 100) (200 * Millisecond),
           EstimatedCost = 1 / 100, EstimatedLatency = 200 * Millisecond,
           Confidence = 1, Fallback = False\<rparr>
   \<and> Model exampleRequest = ''m''"
proof -
  let ?d = "\<lparr>ProviderName = ''A'', DecisionModel = ''m'',
           Reason = CostLatency (1 / 100) (200 * Millisecond),
           EstimatedCost = 1 / 100, EstimatedLatency = 200 * Millisecond,
           Confidence = 1, Fallback = False\<rparr>"
  have ok: "fst (CostBased_DecideRoute NewCostBasedPolicy exampleRequest
          [(''slow'', healthyProvider (1 / 1000) (6 * Second)),
           (''A'', healthyProvider (1 / 100) (200 * Millisecond))]) = Inr ?d"
    by (simp add: cost_based_defs example_defs)
  from C10_never_fallback[OF ok] ok
  show ?thesis by simp
qed

text \<open>
  C6 (as amended).  For every triple of \<open>float64\<close> weights, with \<open>total\<close> the
  \<open>float64\<close> sum \<open>(cost + latency) + health\<close>: \<open>SetWeights\<close> returns an error, leaving the
  three stored weights unchanged, exactly when \<open>total <= 0\<close> holds (it does not for a
  NaN); otherwise it succeeds and stores the \<open>float64\<close> quotients of the three raw
  weights by \<open>total\<close>.  If the three raw weights are finite and not negative and \<open>total\<close>
  is finite and positive, the stored weights are finite, they sum to 1 within \<open>2^-50\<close>,
  and each is within \<open>2^-50\<close> of its raw weight divided by the exact sum of the three.
\<close>

theorem C6_SetWeights:
  "((\<exists>err. snd (SetWeights w c l h) = Some err) \<longleftrightarrow> fle (fadd (fadd c l) h) (Finite 0))
   \<and> (fle (fadd (fadd c l) h) (Finite 0) \<longrightarrow> fst (SetWeights w c l h) = w)
   \<and> (\<not> fle (fadd (fadd c l) h) (Finite 0) \<longrightarrow>
        SetWeights w c l h =
          ((fdiv c (fadd (fadd c l) h), fdiv l (fadd (fadd c l) h),
            fdiv h (fadd (fadd c l) h)), None))
   \<and> (\<forall>x y z t.
        c = Finite x \<and> l = Finite y \<and> h = Finite z
        \<and> representable x \<and> representable y \<and> representable z
        \<and> 0 \<le> x \<and> 0 \<le> y \<and> 0 \<le> z
        \<and> fadd (fadd c l) h = Finite t \<and> 0 < t
        \<longrightarrow> (\<exists>a b d.
               SetWeights w c l h = ((Finite a, Finite b, Finite d), None)
               \<and> \<bar>a + b + d - 1\<bar> \<le> 1 / 2 ^ 50
               \<and> 0 < x + y + z
               \<and> \<bar>a - x / (x + y + z)\<bar> \<le> 1 / 2 ^ 50
               \<and> \<bar>b - y / (x + y + z)\<bar> \<le> 1 / 2 ^ 50
               \<and> \<bar>d - z / (x + y + z)\<bar> \<le> 1 / 2 ^ 50))"
    (is "?refused \<and> ?unchanged \<and> ?stored \<and> ?normal")
proof -
  have refused: ?refused
    by (simp add: SetWeights_def Let_def)
  have unchanged: ?unchanged
    by (simp add: SetWeights_def Let_def)
  have stored: ?stored
    by (simp add: SetWeights_def Let_def)
  have normal: ?normal
  proof (intro allI impI)
    fix x y z t
    assume h: "c = Finite x \<and> l = Finite y \<and> h = Finite z
        \<and> representable x \<and> representable y \<and> representable z
        \<and> 0 \<le> x \<and> 0 \<le> y \<and> 0 \<le> z
        \<and> fadd (fadd c l) h = Finite t \<and> 0 < t"
    then have eqs: "c = Finite x" "l = Finite y" "h = Finite z"
      and rep: "representable x" "representable y" "representable z"
      and nn: "0 \<le> x" "0 \<le> y" "0 \<le> z"
      and total: "fadd (fadd c l) h = Finite t" and pos: "0 < t"
      by blast+
    have "fadd (fadd (Finite x) (Finite y)) (Finite z) = Finite t"
      using total unfolding eqs .
    from SetWeights_normalises[OF rep nn this pos, of w]
    show "\<exists>a b d.
               SetWeights w c l h = ((Finite a, Finite b, Finite d), None)
               \<and> \<bar>a + b + d - 1\<bar> \<le> 1 / 2 ^ 50
               \<and> 0 < x + y + z
               \<and> \<bar>a - x / (x + y + z)\<bar> \<le> 1 / 2 ^ 50
               \<and> \<bar>b - y / (x + y + z)\<bar> \<le> 1 / 2 ^ 50
               \<and> \<bar>d - z / (x + y + z)\<bar> \<le> 1 / 2 ^ 50"
      unfolding eqs .
  qed
  from refused unchanged stored normal show ?thesis
    by blast
qed

text \<open>
  C6 on the raw weights 2, 1, 1, stored as 1/2, 1/4, 1/4, and on the raw weights 1, -1,
  0, which are refused.
\<close>

theorem C6_SetWeights_witness:
  "representable 2 \<and> representable 1
   \<and> fadd (fadd (Finite 2) (Finite 1)) (Finite 1) = Finite 4
   \<and> SetWeights exampleWeights (Finite 2) (Finite 1) (Finite 1)
       = ((Finite (1 / 2), Finite (1 / 4), Finite (1 / 4)), None)
   \<and> \<bar>1 / 2 + 1 / 4 + 1 / 4 - 1 :: real\<bar> \<le> 1 / 2 ^ 50
   \<and> fle (fadd (fadd (Finite 1) (Finite (- 1))) (Finite 0)) (Finite 0)
   \<and> SetWeights exampleWeights (Finite 1) (Finite (- 1)) (Finite 0)
       = (exampleWeights, Some ''weights must sum to a positive number'')"
proof -
  have r: "representable 2" "representable 1"
    using representable_int[of 2] representable_int[of 1] by simp_all
  have t: "fadd (fadd (Finite 2) (Finite 1)) (Finite 1) = Finite 4"
    by (simp add: fromReal_def rnd_values)
  have z: "fadd (fadd (Finite 1) (Finite (- 1))) (Finite 0) = Finite 0"
    by (simp add: fromReal_def rnd_values)
  have q: "fdiv (Finite 2) (Finite 4) = Finite (1 / 2)" "fdiv (Finite 1) (Finite 4) = Finite (1 / 4)"
    by (simp_all add: fromReal_def rnd_values)
  have e: "snd (SetWeights exampleWeights (Finite 1) (Finite (- 1)) (Finite 0))
           = Some ''weights must sum to a positive number''"
    using z by (simp add: SetWeights_def)
  from C6_SetWeights[of exampleWeights "Finite 2" "Finite 1" "Finite 1"]
    C6_SetWeights[of exampleWeights "Finite 1" "Finite (- 1)" "Finite 0"]
    r t z q e
  show ?thesis
    by (simp add: prod_eq_iff)
qed

text \<open>
  C6 as stated fails outside that range.  Three raw weights of \<open>2^1023\<close> have a positive
  sum that overflows to infinity: the call succeeds and stores 0, 0, 0.  The raw weights
  1, \<open>2^53\<close>, \<open>-2^53\<close> have the exact sum 1, but their \<open>float64\<close> sum is 0 and the call is
  refused.  The raw weights \<open>2^54\<close>, \<open>-(2^54 - 4)\<close>, -1 have the sum 3 in \<open>float64\<close> as
  well, and the stored quotients sum to about 0.667.
\<close>

theorem C6_counterexample:
  "representable (2 ^ 1023) \<and> (0 :: real) < 2 ^ 1023 + 2 ^ 1023 + 2 ^ 1023
   \<and> fadd (fadd (Finite (2 ^ 1023)) (Finite (2 ^ 1023))) (Finite (2 ^ 1023)) = PosInf
   \<and> SetWeights exampleWeights (Finite (2 ^ 1023)) (Finite (2 ^ 1023)) (Finite (2 ^ 1023))
       = ((Finite 0, Finite 0, Finite 0), None)
   \<and> (0 :: real) + 0 + 0 \<noteq> 1
   \<and> representable 1 \<and> representable (2 ^ 53) \<and> representable (- (2 ^ 53))
   \<and> (0 :: real) < 1 + 2 ^ 53 + - (2 ^ 53)
   \<and> SetWeights exampleWeights (Finite 1) (Finite (2 ^ 53)) (Finite (- (2 ^ 53)))
       = (exampleWeights, Some ''weights must sum to a positive number'')
   \<and> representable (2 ^ 54) \<and> representable (- 18014398509481980) \<and> representable (- 1)
   \<and> fadd (fadd (Finite (2 ^ 54)) (Finite (- 18014398509481980))) (Finite (- 1)) = Finite 3
   \<and> SetWeights exampleWeights (Finite (2 ^ 54)) (Finite (- 18014398509481980)) (Finite (- 1))
       = ((Finite 6004799503160661, Finite (- 6004799503160660),
           Finite (- (6004799503160661 / 2 ^ 54))), None)
   \<and> (6004799503160661 + - 6004799503160660 + - (6004799503160661 / 2 ^ 54) :: real) < 3 / 4"
proof -
  have r1: "representable (2 ^ 1023)"
    unfolding representable_def
    by (rule exI[of _ "2 ^ 52"], rule exI[of _ 971]) simp
  have r2: "representable 1" "representable (- 1)"
    using representable_int[of 1] representable_int[of "- 1"] by simp_all
  have r3: "representable (2 ^ 53)" "representable (- (2 ^ 53))"
    unfolding representable_def
    by (rule exI[of _ "2 ^ 52"], rule exI[of _ 1], simp,
        rule exI[of _ "- (2 ^ 52)"], rule exI[of _ 1], simp)
  have r4: "representable (2 ^ 54)" "representable (- 18014398509481980)"
    unfolding representable_def
    by (rule exI[of _ "2 ^ 52"], rule exI[of _ 2], simp,
        rule exI[of _ "- 4503599627370495"], rule exI[of _ 2], simp)
  have o: "fadd (fadd (Finite (2 ^ 1023)) (Finite (2 ^ 1023))) (Finite (2 ^ 1023)) = PosInf"
    using rnd_values(7) by (simp add: fromReal_def)
  have a: "fadd (fadd (Finite 1) (Finite (2 ^ 53))) (Finite (- (2 ^ 53))) = Finite 0"
    using rnd_absorbed rnd_values(5) by (simp add: fromReal_def)
  have c: "fadd (fadd (Finite (2 ^ 54)) (Finite (- 18014398509481980))) (Finite (- 1)) = Finite 3"
    using rnd_values(1,2) by (simp add: fromReal_def)
  have q: "fdiv (Finite (2 ^ 54)) (Finite 3) = Finite 6004799503160661"
    "fdiv (Finite (- 18014398509481980)) (Finite 3) = Finite (- 6004799503160660)"
    "fdiv (Finite (- 1)) (Finite 3) = Finite (- (6004799503160661 / 2 ^ 54))"
    using rnd_big_third rnd_values(6) rnd_third by (simp_all add: fromReal_def)
  from r1 r2 r3 r4 o a c q show ?thesis
    by (simp add: SetWeights_def)
qed

text \<open>
  C9.  For every request whose model is empty or whose message list is empty, the
  \<open>DecideRoute\<close> of both strategies returns an error that starts with
  \<open>invalid request\<close>, and no call of a provider method has been made.
\<close>

theorem C9_invalid_request:
  assumes "Model req = [] \<or> Messages req = []"
  shows "\<exists>err. ValidateRequest req = Some err
           \<and> CostBased_DecideRoute cp req provs = (Inl (''invalid request: '' @ err), [])
           \<and> Failover_DecideRoute fp req provs now = (Inl (''invalid request: '' @ err), [])"
  using assms
  by (auto simp: ValidateRequest_def CostBased_DecideRoute_def Failover_DecideRoute_def)

text \<open>C9 on a request without a model and on a request without messages.\<close>

theorem C9_invalid_request_witness:
  "Model (exampleRequest\<lparr>Model := []\<rparr>) = []
   \<and> CostBased_DecideRoute NewCostBasedPolicy (exampleRequest\<lparr>Model := []\<rparr>) exampleProviders
       = (Inl ''invalid request: model is required'', [])
   \<and> Failover_DecideRoute examplePolicy (exampleRequest\<lparr>Model := []\<rparr>) exampleProviders 5
       = (Inl ''invalid request: model is required'', [])
   \<and> Messages (exampleRequest\<lparr>Messages := []\<rparr>) = []
   \<and> CostBased_DecideRoute NewCostBasedPolicy (exampleRequest\<lparr>Messages := []\<rparr>) exampleProviders
       = (Inl ''invalid request: at least one message is required'', [])
   \<and> Failover_DecideRoute examplePolicy (exampleRequest\<lparr>Messages := []\<rparr>) exampleProviders 5
       = (Inl ''invalid request: at least one message is required'', [])"
proof -
  have m: "Model (exampleRequest\<lparr>Model := []\<rparr>) = [] \<or> Messages (exampleRequest\<lparr>Model := []\<rparr>) = []"
    by simp
  have n: "Model (exampleRequest\<lparr>Messages := []\<rparr>) = []
           \<or> Messages (exampleRequest\<lparr>Messages := []\<rparr>) = []"
    by simp
  have v: "ValidateRequest (exampleRequest\<lparr>Model := []\<rparr>) = Some ''model is required''"
    "ValidateRequest (exampleRequest\<lparr>Messages := []\<rparr>)
       = Some ''at least one message is required''"
    by (simp_all add: ValidateRequest_def exampleRequest_def)
  from C9_invalid_request[OF m, of NewCostBasedPolicy exampleProviders examplePolicy 5]
    C9_invalid_request[OF n, of NewCostBasedPolicy exampleProviders examplePolicy 5] v
  show ?thesis by simp
qed

section \<open>The failover strategy\<close>

text \<open>
  C4 (as amended).  Let \<open>MarkFailover\<close> be called with the name of the primary at a
  clock reading \<open>t0\<close> other than the zero time, the cool-down being a \<open>Duration\<close>.
  From then on \<open>shouldUsePrimary\<close> returns false while at most the cool-down has
  elapsed since that call, the moment at which exactly the cool-down has elapsed
  included, and returns true once more than the cool-down has elapsed (for a cool-down
  below the largest \<open>Duration\<close>, at which the elapsed time saturates).  For every name
  other than the primary, \<open>MarkFailover\<close> leaves the policy, its last-failover
  timestamp and the value of \<open>shouldUsePrimary\<close> unchanged.
\<close>

theorem C4_cooldown:
  assumes "\<not> IsZero t0"
    and "minDuration \<le> failoverDelay p" and "failoverDelay p \<le> maxDuration"
  shows "(now - t0 \<le> failoverDelay p \<longrightarrow>
            \<not> shouldUsePrimary (MarkFailover p (primaryProvider p) t0) now)
       \<and> (failoverDelay p < now - t0 \<and> failoverDelay p < maxDuration \<longrightarrow>
            shouldUsePrimary (MarkFailover p (primaryProvider p) t0) now)
       \<and> (b \<noteq> primaryProvider q \<longrightarrow>
            MarkFailover q b t = q
            \<and> lastFailover (MarkFailover q b t) = lastFailover q
            \<and> shouldUsePrimary (MarkFailover q b t) now = shouldUsePrimary q now)"
  using assms
  by (auto simp: MarkFailover_def shouldUsePrimary_def Since_def Sub_def Let_def)

text \<open>
  C4 on the policy with primary \<open>primary\<close> and the default cool-down of 30 seconds,
  failed over at the clock reading 1000: ten seconds later the primary is not used, 31
  seconds later it is used again, and a failure of the backup \<open>first\<close> at that moment
  changes nothing.
\<close>

theorem C4_cooldown_witness:
  "\<not> IsZero 1000
   \<and> minDuration \<le> failoverDelay examplePolicy \<and> failoverDelay examplePolicy < maxDuration
   \<and> \<not> shouldUsePrimary (MarkFailover examplePolicy ''primary'' 1000) (1000 + 10 * Second)
   \<and> shouldUsePrimary (MarkFailover examplePolicy ''primary'' 1000) (1000 + 31 * Second)
   \<and> MarkFailover (MarkFailover examplePolicy ''primary'' 1000) ''first'' (1000 + 31 * Second)
       = MarkFailover examplePolicy ''primary'' 1000"
proof -
  let ?q = "MarkFailover examplePolicy ''primary'' 1000"
  have z: "\<not> IsZero 1000"
    by (simp add: IsZero_def)
  have lo: "minDuration \<le> failoverDelay examplePolicy"
    and hi: "failoverDelay examplePolicy \<le> maxDuration"
    and hi': "failoverDelay examplePolicy < maxDuration"
    by (simp_all add: examplePolicy_def NewFailoverPolicy_def Second_def
          minDuration_def maxDuration_def)
  have pr: "primaryProvider examplePolicy = ''primary''" "primaryProvider ?q = ''primary''"
    and dl: "failoverDelay examplePolicy = 30 * Second"
    by (simp_all add: examplePolicy_def NewFailoverPolicy_def MarkFailover_def)
  from C4_cooldown[OF z lo hi, of "1000 + 10 * Second" "''first''" ?q "1000 + 31 * Second"]
    C4_cooldown[OF z lo hi, of "1000 + 31 * Second" "''first''" ?q "1000 + 31 * Second"]
    z lo hi' pr dl
  show ?thesis by (simp add: Second_def)
qed

text \<open>
  C4 as stated fails at the end of the cool-down: exactly 30 seconds after the failover
  of the primary, the cool-down of 30 seconds has elapsed and \<open>shouldUsePrimary\<close>
  still returns false.
\<close>

theorem C4_counterexample:
  "Since (1000 + 30 * Second) 1000 = failoverDelay examplePolicy
   \<and> failoverDelay (MarkFailover examplePolicy ''primary'' 1000) = failoverDelay examplePolicy
   \<and> \<not> shouldUsePrimary (MarkFailover examplePolicy ''primary'' 1000) (1000 + 30 * Second)"
  by (simp add: MarkFailover_def shouldUsePrimary_def Since_def Sub_def Let_def
        examplePolicy_def NewFailoverPolicy_def Second_def IsZero_def maxDuration_def
        minDuration_def)

text \<open>
  C5.  For every valid request and provider set, the failover \<open>DecideRoute\<close> decides as
  follows.  If \<open>shouldUsePrimary\<close> holds and the primary is present in the set, healthy,
  and supports the requested model, the primary is chosen with confidence 1.0 and
  \<open>Fallback = False\<close>.  Otherwise the first backup, in the configured order, that is
  present, healthy, and supports the model is chosen with confidence 0.8 and
  \<open>Fallback = True\<close>.  If there is no such backup, the result is the error
  \<open>no available providers for model X\<close>, X being the requested model.
\<close>

theorem C5_failover_decision:
  assumes "ValidateRequest req = None"
  shows "fst (Failover_DecideRoute p req provs now) =
           (if shouldUsePrimary p now \<and> qualifies provs req (primaryProvider p)
            then Inr \<lparr>ProviderName = primaryProvider p, DecisionModel = Model req,
                      Reason = PrimaryHealthy, EstimatedCost = 0, EstimatedLatency = 0,
                      Confidence = 1, Fallback = False\<rparr>
            else (case List.find (qualifies provs req) (backupProviders p) of
                    Some b \<Rightarrow>
                      Inr \<lparr>ProviderName = b, DecisionModel = Model req,
                           Reason = UsingBackup b, EstimatedCost = 0, EstimatedLatency = 0,
                           Confidence = 8 / 10, Fallback = True\<rparr>
                  | None \<Rightarrow> Inl (''no available providers for model '' @ Model req)))"
proof -
  obtain b calls where tp: "tryPrimary p req provs now = (b, calls)"
    by (cases "tryPrimary p req provs now")
  obtain r calls' where tb: "tryBackups provs req (backupProviders p) = (r, calls')"
    by (cases "tryBackups provs req (backupProviders p)")
  from tp have b: "b = (shouldUsePrimary p now \<and> qualifies provs req (primaryProvider p))"
    using tryPrimary_qualifies[of p req provs now] by simp
  from tb have r: "r = map_option (backupDecision req)
                         (List.find (qualifies provs req) (backupProviders p))"
    using tryBackups_find[of provs req "backupProviders p"] by simp
  show ?thesis
    using assms tp tb b r
    by (auto simp: Failover_DecideRoute_def backupDecision_def split: option.splits)
qed

text \<open>
  C5 with an unhealthy primary and two backups of which only the second supports the
  model: the second backup is chosen, with confidence 0.8 and \<open>Fallback = True\<close>.  With
  no backup that supports the model, the error is returned.
\<close>

theorem C5_failover_decision_witness:
  "ValidateRequest exampleRequest = None
   \<and> fst (Failover_DecideRoute examplePolicy exampleRequest
            [(''primary'', exampleProvider False (Inr [''m'']) (Inr 0) (Inr 0)),
             (''first'', exampleProvider True (Inr [''other'']) (Inr 0) (Inr 0)),
             (''second'', exampleProvider True (Inr [''m'']) (Inr 0) (Inr 0))] 5)
       = Inr \<lparr>ProviderName = ''second'', DecisionModel = ''m'',
               Reason = UsingBackup ''second'', EstimatedCost = 0, EstimatedLatency = 0,
               Confidence = 8 / 10, Fallback = True\<rparr>
   \<and> fst (Failover_DecideRoute examplePolicy exampleRequest
            [(''primary'', exampleProvider False (Inr [''m'']) (Inr 0) (Inr 0)),
             (''first'', exampleProvider True (Inr [''other'']) (Inr 0) (Inr 0))] 5)
       = Inl ''no available providers for model m''
   \<and> fst (Failover_DecideRoute examplePolicy exampleRequest
            [(''primary'', exampleProvider True (Inr [''m'']) (Inr 0) (Inr 0)),
             (''second'', exampleProvider True (Inr [''m'']) (Inr 0) (Inr 0))] 5)
       = Inr \<lparr>ProviderName = ''primary'', DecisionModel = ''m'',
               Reason = PrimaryHealthy, EstimatedCost = 0, EstimatedLatency = 0,
               Confidence = 1, Fallback = False\<rparr>"
proof -
  have v: "ValidateRequest exampleRequest = None"
    by (simp add: example_defs)
  note defs = qualifies_def shouldUsePrimary_def IsZero_def examplePolicy_def
    NewFailoverPolicy_def example_defs
  from C5_failover_decision[OF v, of examplePolicy
      "[(''primary'', exampleProvider False (Inr [''m'']) (Inr 0) (Inr 0)),
        (''first'', exampleProvider True (Inr [''other'']) (Inr 0) (Inr 0)),
        (''second'', exampleProvider True (Inr [''m'']) (Inr 0) (Inr 0))]" 5]
  have one: "fst (Failover_DecideRoute examplePolicy exampleRequest
            [(''primary'', exampleProvider False (Inr [''m'']) (Inr 0) (Inr 0)),
             (''first'', exampleProvider True (Inr [''other'']) (Inr 0) (Inr 0)),
             (''second'', exampleProvider True (Inr [''m'']) (Inr 0) (Inr 0))] 5)
       = Inr \<lparr>ProviderName = ''second'', DecisionModel = ''m'',
               Reason = UsingBackup ''second'', EstimatedCost = 0, EstimatedLatency = 0,
               Confidence = 8 / 10, Fallback = True\<rparr>"
    by (simp add: defs)
  from C5_failover_decision[OF v, of examplePolicy
      "[(''primary'', exampleProvider False (Inr [''m'']) (Inr 0) (Inr 0)),
        (''first'', exampleProvider True (Inr [''other'']) (Inr 0) (Inr 0))]" 5]
  have two: "fst (Failover_DecideRoute examplePolicy exampleRequest
            [(''primary'', exampleProvider False (Inr [''m'']) (Inr 0) (Inr 0)),
             (''first'', exampleProvider True (Inr [''other'']) (Inr 0) (Inr 0))] 5)
       = Inl ''no available providers for model m''"
    by (simp add: defs)
  from C5_failover_decision[OF v, of examplePolicy
      "[(''primary'', exampleProvider True (Inr [''m'']) (Inr 0) (Inr 0)),
        (''second'', exampleProvider True (Inr [''m'']) (Inr 0) (Inr 0))]" 5]
  have three: "fst (Failover_DecideRoute examplePolicy exampleRequest
            [(''primary'', exampleProvider True (Inr [''m'']) (Inr 0) (Inr 0)),
             (''second'', exampleProvider True (Inr [''m'']) (Inr 0) (Inr 0))] 5)
       = Inr \<lparr>ProviderName = ''primary'', DecisionModel = ''m'',
               Reason = PrimaryHealthy, EstimatedCost = 0, EstimatedLatency = 0,
               Confidence = 1, Fallback = False\<rparr>"
    by (simp add: defs)
  from v one two three show ?thesis by simp
qed

section \<open>The health checker\<close>

text \<open>
  C7.  Start from the empty metrics table of a new checker and let providers be added,
  removed and checked in any order.  Each check of a provider leaves a metrics record
  for it with a positive number of checks, and every stored record with a positive
  number of checks has an uptime equal to successful checks / total checks * 100, which
  is never negative and never above 100.  The counters are those of the checks made: for
  the outcomes of the checks of a provider since it was registered, the total counter is
  their number, the successful counter the number of successes and the failed counter
  the number of failures, so the stored uptime is successes / checks * 100.
\<close>

theorem C7_uptime:
  "(\<exists>m. run (events @ [Check nm provider lat now]) nm = Some m \<and> 0 < TotalChecks m)
   \<and> (\<forall>m. run events nm = Some m \<and> 0 < TotalChecks m \<longrightarrow>
           Uptime m = real_of_int (SuccessfulChecks m) / real_of_int (TotalChecks m) * 100
           \<and> 0 \<le> Uptime m \<and> Uptime m \<le> 100)
   \<and> (case checksOf events nm of
         None \<Rightarrow> run events nm = None
       | Some outcomes \<Rightarrow>
           (\<exists>m. run events nm = Some m
              \<and> TotalChecks m = int (length outcomes)
              \<and> SuccessfulChecks m = successes outcomes
              \<and> FailedChecks m = failures outcomes
              \<and> Uptime m = (if outcomes = [] then 0
                            else real_of_int (successes outcomes)
                                 / real_of_int (int (length outcomes)) * 100)
              \<and> 0 \<le> Uptime m \<and> Uptime m \<le> 100))"
    (is "?after \<and> ?stored \<and> ?counts")
proof -
  have after: ?after
  proof (cases "run events nm")
    case None
    then show ?thesis
      by (auto simp: run_snoc checkProvider_def Let_def newMetrics_def split: sum.splits)
  next
    case (Some m0)
    then have "counted m0"
      by (rule run_counted)
    with Some show ?thesis
      by (auto simp: run_snoc checkProvider_def Let_def counted_def split: sum.splits)
  qed
  have stored: ?stored
  proof (intro allI impI)
    fix m assume "run events nm = Some m \<and> 0 < TotalChecks m"
    then have c: "counted m" and t: "0 < TotalChecks m"
      using run_counted by auto
    from c t have "Uptime m = real_of_int (SuccessfulChecks m) / real_of_int (TotalChecks m) * 100"
      by (simp add: counted_def)
    moreover from c have "0 \<le> Uptime m \<and> Uptime m \<le> 100"
      by (rule counted_bounds)
    ultimately show "Uptime m = real_of_int (SuccessfulChecks m) / real_of_int (TotalChecks m) * 100
           \<and> 0 \<le> Uptime m \<and> Uptime m \<le> 100"
      by blast
  qed
  have counts: ?counts
  proof (cases "checksOf events nm")
    case None
    with run_tallied[of events nm] show ?thesis
      by (simp add: tallied_def)
  next
    case (Some outcomes)
    with run_tallied[of events nm] obtain m where
      m: "run events nm = Some m" "TotalChecks m = int (length outcomes)"
        "SuccessfulChecks m = successes outcomes" "FailedChecks m = failures outcomes"
      by (auto simp: tallied_def split: option.splits)
    from m(1) have c: "counted m"
      by (rule run_counted)
    then have u: "Uptime m = (if outcomes = [] then 0
                            else real_of_int (successes outcomes)
                                 / real_of_int (int (length outcomes)) * 100)"
      using m(2,3) by (auto simp: counted_def)
    from c have "0 \<le> Uptime m \<and> Uptime m \<le> 100"
      by (rule counted_bounds)
    with Some m u show ?thesis by simp
  qed
  from after stored counts show ?thesis by blast
qed

text \<open>
  C7 after three successful checks and one failed check of a provider: the uptime is
  75.
\<close>

theorem C7_uptime_witness:
  "checksOf (exampleEvents @
        [Check ''p'' (healthyProvider 0 0) 120 3,
         Check ''p'' (exampleProvider True (Inl ''timeout'') (Inr 0) (Inr 0)) 5000 4,
         Check ''p'' (healthyProvider 0 0) 90 5]) ''p'' = Some [True, True, False, True]
   \<and> successes [True, True, False, True] = 3
   \<and> failures [True, True, False, True] = 1
   \<and> run (exampleEvents @
        [Check ''p'' (healthyProvider 0 0) 120 3,
         Check ''p'' (exampleProvider True (Inl ''timeout'') (Inr 0) (Inr 0)) 5000 4,
         Check ''p'' (healthyProvider 0 0) 90 5]) ''p''
     = Some \<lparr>TotalChecks = 4, SuccessfulChecks = 3, FailedChecks = 1, MetricsLastCheck = 5,
             LastLatency = 90, AverageLatency = 540, Uptime = 75\<rparr>
   \<and> (75 :: real) = real_of_int 3 / real_of_int 4 * 100"
proof -
  let ?events = "exampleEvents @
        [Check ''p'' (healthyProvider 0 0) 120 3,
         Check ''p'' (exampleProvider True (Inl ''timeout'') (Inr 0) (Inr 0)) 5000 4,
         Check ''p'' (healthyProvider 0 0) 90 5]"
  have h: "checksOf ?events ''p'' = Some [True, True, False, True]"
    by (simp add: checksOf_def exampleEvents_def example_defs)
  have s: "successes [True, True, False, True] = 3" "failures [True, True, False, True] = 1"
    by (simp_all add: successes_def failures_def)
  from C7_uptime[of ?events "''p''" "healthyProvider 0 0" 1 6] h s
  obtain m where m: "run ?events ''p'' = Some m" "TotalChecks m = 4"
    "SuccessfulChecks m = 3" "FailedChecks m = 1" "Uptime m = 75"
    by auto
  have r: "run ?events ''p'' = Some \<lparr>TotalChecks = 4, SuccessfulChecks = 3, FailedChecks = 1,
             MetricsLastCheck = 5, LastLatency = 90, AverageLatency = 540, Uptime = 75\<rparr>"
    by (simp add: exampleEvents_def run_def checkProvider_def Let_def newMetrics_def
          example_defs truncate_def)
  from h s r m show ?thesis by simp
qed

text \<open>
  C8 (as amended).  A check of a provider with measured latency L increments the total
  counter and records L as the last latency.  If the probe succeeds, it increments the
  successful counter, marks the provider healthy with latency L, and feeds L into the
  smoothed average: the average becomes L outright while it is zero (so at the first
  successful probe), and (avg * (1 - 0.1) + L * 0.1) cut to whole nanoseconds
  otherwise.  If the probe fails, it increments the failed counter and marks the
  provider unhealthy with latency L and the error text; the smoothed average is left
  unchanged only while no probe of the provider has succeeded yet, and after a success
  the latency of the failed probe is fed into the average by the same rule.
\<close>

theorem C8_average_latency:
  assumes prior: "m = (case run events nm of None \<Rightarrow> newMetrics 0 | Some m0 \<Rightarrow> m0)"
    and res: "checkProvider (run events) nm provider lat now = (table', provider')"
  shows "\<exists>m'. table' nm = Some m'
           \<and> TotalChecks m' = TotalChecks m + 1 \<and> LastLatency m' = lat
           \<and> (case GetModels provider of
                Inr models \<Rightarrow>
                  SuccessfulChecks m' = SuccessfulChecks m + 1
                  \<and> FailedChecks m' = FailedChecks m
                  \<and> health provider' =
                      \<lparr>Healthy = True, Latency = lat, LastCheck = now, Error = []\<rparr>
                  \<and> AverageLatency m' = averaged m lat
              | Inl err \<Rightarrow>
                  SuccessfulChecks m' = SuccessfulChecks m
                  \<and> FailedChecks m' = FailedChecks m + 1
                  \<and> health provider' =
                      \<lparr>Healthy = False, Latency = lat, LastCheck = now, Error = err\<rparr>
                  \<and> AverageLatency m' =
                      (if 0 < SuccessfulChecks m then averaged m lat else AverageLatency m))"
proof -
  have "0 \<le> SuccessfulChecks m"
  proof (cases "run events nm")
    case None
    with prior show ?thesis
      by (simp add: newMetrics_def)
  next
    case (Some m0)
    then have "counted m0"
      by (rule run_counted)
    with Some prior show ?thesis
      by (simp add: counted_def)
  qed
  with prior res show ?thesis
    by (cases "run events nm")
       (auto simp: checkProvider_def Let_def averaged_def SetHealth_def split: sum.splits)
qed

text \<open>
  C8 after one successful check of latency 100: a successful check of latency 205 moves
  the average to 110 (110.5 cut to whole nanoseconds) and marks the provider healthy.
\<close>

theorem C8_average_latency_witness:
  "run exampleEvents ''p'' =
     Some \<lparr>TotalChecks = 1, SuccessfulChecks = 1, FailedChecks = 0, MetricsLastCheck = 2,
           LastLatency = 100, AverageLatency = 100, Uptime = 100\<rparr>
   \<and> GetModels (healthyProvider 0 0) = Inr [''m'']
   \<and> fst (checkProvider (run exampleEvents) ''p'' (healthyProvider 0 0) 205 3) ''p'' =
     Some \<lparr>TotalChecks = 2, SuccessfulChecks = 2, FailedChecks = 0, MetricsLastCheck = 3,
           LastLatency = 205, AverageLatency = 110, Uptime = 100\<rparr>
   \<and> health (snd (checkProvider (run exampleEvents) ''p'' (healthyProvider 0 0) 205 3)) =
     \<lparr>Healthy = True, Latency = 205, LastCheck = 3, Error = []\<rparr>"
proof -
  let ?m = "\<lparr>TotalChecks = 1, SuccessfulChecks = 1, FailedChecks = 0, MetricsLastCheck = 2,
           LastLatency = 100, AverageLatency = 100, Uptime = 100\<rparr>"
  have r: "run exampleEvents ''p'' = Some ?m"
    by (simp add: exampleEvents_def run_def checkProvider_def Let_def newMetrics_def
          example_defs)
  then have prior: "?m = (case run exampleEvents ''p'' of
                            None \<Rightarrow> newMetrics 0 | Some m0 \<Rightarrow> m0)"
    by simp
  have g: "GetModels (healthyProvider 0 0) = Inr [''m'']"
    by (simp add: example_defs)
  have av: "averaged ?m 205 = 110"
    by (simp add: averaged_def truncate_def)
  obtain table' provider' where
    res: "checkProvider (run exampleEvents) ''p'' (healthyProvider 0 0) 205 3
          = (table', provider')"
    by (cases "checkProvider (run exampleEvents) ''p'' (healthyProvider 0 0) 205 3")
  from C8_average_latency[OF prior res] g av
  obtain m' where m': "table' ''p'' = Some m'" "AverageLatency m' = 110"
    "health provider' = \<lparr>Healthy = True, Latency = 205, LastCheck = 3, Error = []\<rparr>"
    by auto
  have t: "table' ''p'' =
     Some \<lparr>TotalChecks = 2, SuccessfulChecks = 2, FailedChecks = 0, MetricsLastCheck = 3,
           LastLatency = 205, AverageLatency = 110, Uptime = 100\<rparr>"
    using res r by (auto simp: checkProvider_def Let_def example_defs truncate_def)
  from r g t m'(3) res show ?thesis by simp
qed

text \<open>
  C8 as stated fails: after one successful check of latency 100, a failed check of
  latency 200 moves the smoothed average from 100 to 110.
\<close>

theorem C8_counterexample:
  "run exampleEvents ''p'' =
     Some \<lparr>TotalChecks = 1, SuccessfulChecks = 1, FailedChecks = 0, MetricsLastCheck = 2,
           LastLatency = 100, AverageLatency = 100, Uptime = 100\<rparr>
   \<and> GetModels (exampleProvider True (Inl ''timeout'') (Inr 0) (Inr 0)) = Inl ''timeout''
   \<and> fst (checkProvider (run exampleEvents) ''p''
            (exampleProvider True (Inl ''timeout'') (Inr 0) (Inr 0)) 200 3) ''p'' =
     Some \<lparr>TotalChecks = 2, SuccessfulChecks = 1, FailedChecks = 1, MetricsLastCheck = 3,
           LastLatency = 200, AverageLatency = 110, Uptime = 50\<rparr>"
  by (simp add: exampleEvents_def run_def checkProvider_def Let_def newMetrics_def
        example_defs truncate_def)

end
